theory Spec2Isabelle
  imports Complex_Main "HOL-Library.Log_Nat"
begin

section \<open>Python floats\<close>

text \<open>
  The amounts of \<^verbatim>\<open>LongTermDeferredExpense\<close> are annotated \<^verbatim>\<open>float\<close> and the driver passes
  \<^verbatim>\<open>120000.00\<close>: they are IEEE-754 binary64 numbers. A finite binary64 number is modelled by
  the rational it denotes; an operation computes the exact rational result and rounds it to
  the nearest representable number, ties to the even significand (\<open>fl\<close>). The two zeros are
  identified, which no comparison of the program can tell apart. The infinities and NaN
  come in with the type \<open>pyfloat\<close> further down; the results of the program's operations
  stay finite when its inputs are finite and not negative (\<open>is_float\<close> is preserved, see
  \<open>amortize_for_period_is_float\<close>), so that the methods on finite floats are defined first.
\<close>

definition round_half_even :: "rat \<Rightarrow> int" where
  "round_half_even y =
     (let f = \<lfloor>y\<rfloor>; d = y - of_int f
      in if d < 1 / 2 then f else if 1 / 2 < d then f + 1 else if even f then f else f + 1)"

text \<open>\<open>float_exponent x\<close> is the integer \<open>e\<close> with \<open>2^e \<le> |x| < 2^(e+1)\<close>, for \<open>x \<noteq> 0\<close>.\<close>

definition float_exponent :: "rat \<Rightarrow> int" where
  "float_exponent x =
     (let p = fst (quotient_of \<bar>x\<bar>); q = snd (quotient_of \<bar>x\<bar>); d = bitlen p - bitlen q
      in if 2 powi d \<le> \<bar>x\<bar> then d else d - 1)"

text \<open>
  The spacing of the binary64 numbers around \<open>x\<close>: 53 significant bits, and the fixed
  spacing \<open>2^-1074\<close> of the subnormal numbers below \<open>2^-1022\<close>.
\<close>

definition ulp :: "rat \<Rightarrow> rat" where
  "ulp x = 2 powi (max (float_exponent x) (- 1022) - 52)"

definition fl :: "rat \<Rightarrow> rat" where
  "fl x = (if x = 0 then 0 else of_int (round_half_even (x / ulp x)) * ulp x)"

definition is_float :: "rat \<Rightarrow> bool" where
  "is_float x \<longleftrightarrow> fl x = x \<and> \<bar>x\<bar> < 2 ^ 1024"

datatype error = ValueError | OverflowError | ZeroDivisionError | AttributeError

text \<open>The conversion of a Python \<^verbatim>\<open>int\<close> that \<^verbatim>\<open>float / int\<close> performs on its right operand.\<close>

definition int_to_float :: "int \<Rightarrow> error + rat" where
  "int_to_float n =
     (if \<bar>fl (of_int n)\<bar> < 2 ^ 1024 then Inr (fl (of_int n)) else Inl OverflowError)"

definition float_truediv :: "rat \<Rightarrow> rat \<Rightarrow> error + rat" where
  "float_truediv a b = (if b = 0 then Inl ZeroDivisionError else Inr (fl (a / b)))"

definition float_sub :: "rat \<Rightarrow> rat \<Rightarrow> rat" where
  "float_sub a b = fl (a - b)"

text \<open>
  \<^verbatim>\<open>round(x, 2)\<close> on a float: the decimal with two places nearest to the exact value of
  \<open>x\<close>, ties to the even last digit, converted back to the nearest float.
\<close>

definition round2 :: "rat \<Rightarrow> rat" where
  "round2 x = fl (of_int (round_half_even (x * 100)) / 100)"

text \<open>\<^verbatim>\<open>min(a, b)\<close> keeps its first argument unless the second is smaller.\<close>

definition py_min :: "rat \<Rightarrow> rat \<Rightarrow> rat" where
  "py_min a b = (if b < a then b else a)"

section \<open>The deferred expense\<close>

datatype date = Date int int int

record transaction =
  date :: date
  amortized_amount :: rat
  remaining_book_value :: rat

record expense =
  name :: string
  total_cost :: rat
  amortization_period_months :: int
  start_date :: date
  book_value :: rat
  monthly_amortization_amount :: rat
  amortization_history :: "transaction list"

text \<open>
  A printed line, with the values that are interpolated into it (the amounts are shown
  with two decimals by the format \<^verbatim>\<open>:,.2f\<close>; the line carries the value that is formatted).
\<close>

datatype line =
    InitHeader
  | InitName string
  | InitCost rat
  | InitPeriod int
  | InitMonthly rat
  | JournalHeader
  | DebitAsset string rat
  | CreditCash rat
  | Rule
  | FullyAmortized date string
  | AmortizeHeader date
  | DebitExpense rat
  | CreditAsset string rat
  | BookValue rat

text \<open>\<^verbatim>\<open>__init__\<close>: the result is the printed lines and the new object, or the exception.\<close>

definition init :: "string \<Rightarrow> rat \<Rightarrow> int \<Rightarrow> date \<Rightarrow> error + (line list \<times> expense)" where
  "init nm cost months start =
     (if months \<le> 0 then Inl ValueError
      else case int_to_float months of
        Inl e \<Rightarrow> Inl e
      | Inr monthsf \<Rightarrow>
          (case float_truediv cost monthsf of
             Inl e \<Rightarrow> Inl e
           | Inr quot \<Rightarrow>
               let self = \<lparr> name = nm, total_cost = cost, amortization_period_months = months,
                            start_date = start, book_value = cost,
                            monthly_amortization_amount = round2 quot,
                            amortization_history = [] \<rparr>
               in Inr ([InitHeader, InitName (name self), InitCost (total_cost self),
                        InitPeriod (amortization_period_months self),
                        InitMonthly (monthly_amortization_amount self), JournalHeader,
                        DebitAsset (name self) (total_cost self), CreditCash (total_cost self),
                        Rule], self)))"

definition get_status :: "expense \<Rightarrow> line list \<times> expense" where
  "get_status self = ([BookValue (book_value self), Rule], self)"

definition amortize_for_period :: "date \<Rightarrow> expense \<Rightarrow> line list \<times> expense" where
  "amortize_for_period amortization_date self =
     (if book_value self \<le> 0 then ([FullyAmortized amortization_date (name self)], self)
      else
        let amount_to_amortize = py_min (book_value self) (monthly_amortization_amount self);
            self1 = self\<lparr>book_value := float_sub (book_value self) amount_to_amortize\<rparr>;
            trans = \<lparr> date = amortization_date, amortized_amount = amount_to_amortize,
                      remaining_book_value = book_value self1 \<rparr>;
            self2 = self1\<lparr>amortization_history := amortization_history self1 @ [trans]\<rparr>
        in ([AmortizeHeader amortization_date, JournalHeader, DebitExpense amount_to_amortize,
             CreditAsset (name self2) amount_to_amortize] @ fst (get_status self2),
            snd (get_status self2)))"

text \<open>Successive calls, one for each date of the list, as the driver's loop makes them.\<close>

fun amortize_all :: "date list \<Rightarrow> expense \<Rightarrow> expense" where
  "amortize_all [] self = self"
| "amortize_all (d # ds) self = amortize_all ds (snd (amortize_for_period d self))"

text \<open>
  The driver's \<^verbatim>\<open>sum(t['amortized_amount'] for t in ...)\<close>: the amounts are added from the
  left, starting at 0, each addition rounded to a float.
\<close>

definition total_amortized :: "expense \<Rightarrow> rat" where
  "total_amortized self =
     foldl (\<lambda>acc t. fl (acc + amortized_amount t)) 0 (amortization_history self)"

text \<open>The same sum without rounding: the amounts of the history added as exact numbers.\<close>

definition amortized_sum :: "expense \<Rightarrow> rat" where
  "amortized_sum self = sum_list (map amortized_amount (amortization_history self))"

text \<open>
  A run of calls is exact when none of its subtractions \<^verbatim>\<open>self.book_value -= amount_to_amortize\<close>
  is rounded: the difference of the two floats is itself a float.
\<close>

fun exact_run :: "date list \<Rightarrow> expense \<Rightarrow> bool" where
  "exact_run [] self = True"
| "exact_run (d # ds) self =
     ((if book_value self \<le> 0 then True
       else float_sub (book_value self)
              (py_min (book_value self) (monthly_amortization_amount self))
            = book_value self - py_min (book_value self) (monthly_amortization_amount self))
      \<and> exact_run ds (snd (amortize_for_period d self)))"

section \<open>All floats and any argument\<close>

text \<open>
  Python enforces no annotation. The definitions above take an amount to be a finite float
  and the argument of \<^verbatim>\<open>amortize_for_period\<close> to be a date. The definitions of this section
  are the same three methods on every float, the infinities and NaN included, and on an
  argument of any class for \<^verbatim>\<open>amortize_for_period\<close>, which uses its argument twice: it stores
  it in the record of the period and it calls its method \<^verbatim>\<open>strftime\<close>. They also keep what a
  call returns and what the format \<^verbatim>\<open>:,.2f\<close> makes of an amount. As before, a \<^verbatim>\<open>print\<close> is
  taken to succeed and is the line it adds to the output.
\<close>

datatype pyfloat = Finite rat | PosInf | NegInf | NaN


text \<open>
  The float of an exact result: it is rounded, and a rounded value of magnitude \<open>2 ^ 1024\<close>
  or more is an infinity.
\<close>

definition to_pyfloat :: "rat \<Rightarrow> pyfloat" where
  "to_pyfloat r =
     (if 2 ^ 1024 \<le> fl r then PosInf
      else if fl r \<le> - (2 ^ 1024) then NegInf
      else Finite (fl r))"

text \<open>\<^verbatim>\<open>a < b\<close> and \<^verbatim>\<open>a <= b\<close>: every comparison with NaN is false.\<close>

fun pf_less :: "pyfloat \<Rightarrow> pyfloat \<Rightarrow> bool" where
  "pf_less (Finite x) (Finite y) = (x < y)"
| "pf_less (Finite x) PosInf = True"
| "pf_less NegInf (Finite y) = True"
| "pf_less NegInf PosInf = True"
| "pf_less _ _ = False"

fun pf_le :: "pyfloat \<Rightarrow> pyfloat \<Rightarrow> bool" where
  "pf_le (Finite x) (Finite y) = (x \<le> y)"
| "pf_le (Finite x) PosInf = True"
| "pf_le NegInf (Finite y) = True"
| "pf_le NegInf PosInf = True"
| "pf_le NegInf NegInf = True"
| "pf_le PosInf PosInf = True"
| "pf_le _ _ = False"

definition pf_min :: "pyfloat \<Rightarrow> pyfloat \<Rightarrow> pyfloat" where
  "pf_min a b = (if pf_less b a then b else a)"

text \<open>\<^verbatim>\<open>a - b\<close>: the difference of two infinities of the same sign is NaN.\<close>

fun pf_sub :: "pyfloat \<Rightarrow> pyfloat \<Rightarrow> pyfloat" where
  "pf_sub (Finite x) (Finite y) = to_pyfloat (x - y)"
| "pf_sub NaN b = NaN"
| "pf_sub a NaN = NaN"
| "pf_sub PosInf PosInf = NaN"
| "pf_sub NegInf NegInf = NaN"
| "pf_sub PosInf b = PosInf"
| "pf_sub NegInf b = NegInf"
| "pf_sub (Finite x) PosInf = NegInf"
| "pf_sub (Finite x) NegInf = PosInf"

text \<open>\<^verbatim>\<open>a / b\<close> for a float \<open>a\<close> and the finite float \<open>b\<close> that the period count was converted to.\<close>

definition pf_truediv :: "pyfloat \<Rightarrow> rat \<Rightarrow> error + pyfloat" where
  "pf_truediv a b =
     (if b = 0 then Inl ZeroDivisionError
      else Inr (case a of
                  Finite x \<Rightarrow> to_pyfloat (x / b)
                | PosInf \<Rightarrow> if 0 < b then PosInf else NegInf
                | NegInf \<Rightarrow> if 0 < b then NegInf else PosInf
                | NaN \<Rightarrow> NaN))"

text \<open>
  \<^verbatim>\<open>round(x, 2)\<close>: an infinity or NaN is returned as it is; a finite float is rounded, and
  \<^verbatim>\<open>OverflowError\<close> is raised when the rounded value is too large for a float.
\<close>

definition pf_round2 :: "pyfloat \<Rightarrow> error + pyfloat" where
  "pf_round2 v =
     (case v of
        Finite x \<Rightarrow> if \<bar>round2 x\<bar> < 2 ^ 1024 then Inr (Finite (round2 x)) else Inl OverflowError
      | _ \<Rightarrow> Inr v)"

text \<open>
  What \<^verbatim>\<open>f"{x:,.2f}"\<close> shows: for a finite float the decimal with two places nearest to its
  exact value, ties to the even last digit; \<open>Decimal c\<close> is the text of \<open>c\<close> hundredths (sign,
  digits in groups of three, point, two digits). The sign of a negative amount that is shown
  as zero is not kept. An infinity is shown as \<^verbatim>\<open>inf\<close> or \<^verbatim>\<open>-inf\<close>, NaN as \<^verbatim>\<open>nan\<close>.
\<close>

datatype printed = Decimal int | ShownInf | ShownNegInf | ShownNaN

fun format_2f :: "pyfloat \<Rightarrow> printed" where
  "format_2f (Finite x) = Decimal (round_half_even (x * 100))"
| "format_2f PosInf = ShownInf"
| "format_2f NegInf = ShownNegInf"
| "format_2f NaN = ShownNaN"

text \<open>
  The argument of \<^verbatim>\<open>amortize_for_period\<close>: a date, or an object of another class, which has
  no method \<^verbatim>\<open>strftime\<close>. \<open>strftime\<close> gives the date whose text is made, or the exception of
  the attribute lookup.
\<close>

datatype pyobj = DateObj date | NoneObj | StrObj string | IntObj int

definition strftime :: "pyobj \<Rightarrow> error + date" where
  "strftime obj = (case obj of DateObj d \<Rightarrow> Inr d | _ \<Rightarrow> Inl AttributeError)"

text \<open>What a call returns: \<^verbatim>\<open>None\<close> when the body has no \<^verbatim>\<open>return\<close> with a value.\<close>

datatype pyval = NoneVal | FloatVal pyfloat

record transaction_x =
  date_x :: pyobj
  amortized_amount_x :: pyfloat
  remaining_book_value_x :: pyfloat

record expense_x =
  name_x :: string
  total_cost_x :: pyfloat
  amortization_period_months_x :: int
  start_date_x :: date
  book_value_x :: pyfloat
  monthly_amortization_amount_x :: pyfloat
  amortization_history_x :: "transaction_x list"

text \<open>A printed line with its amounts as they are shown.\<close>

datatype line_x =
    XInitHeader
  | XInitName string
  | XInitCost printed
  | XInitPeriod int
  | XInitMonthly printed
  | XJournalHeader
  | XDebitAsset string printed
  | XCreditCash printed
  | XRule
  | XFullyAmortized date string
  | XAmortizeHeader date
  | XDebitExpense printed
  | XCreditAsset string printed
  | XBookValue printed

definition init_x :: "string \<Rightarrow> pyfloat \<Rightarrow> int \<Rightarrow> date \<Rightarrow> error + (line_x list \<times> expense_x)" where
  "init_x nm cost months start =
     (if months \<le> 0 then Inl ValueError
      else case int_to_float months of
        Inl e \<Rightarrow> Inl e
      | Inr monthsf \<Rightarrow>
          (case pf_truediv cost monthsf of
             Inl e \<Rightarrow> Inl e
           | Inr quot \<Rightarrow>
               (case pf_round2 quot of
                  Inl e \<Rightarrow> Inl e
                | Inr monthly \<Rightarrow>
                    let self = \<lparr> name_x = nm, total_cost_x = cost,
                                 amortization_period_months_x = months, start_date_x = start,
                                 book_value_x = cost, monthly_amortization_amount_x = monthly,
                                 amortization_history_x = [] \<rparr>
                    in Inr ([XInitHeader, XInitName (name_x self),
                             XInitCost (format_2f (total_cost_x self)),
                             XInitPeriod (amortization_period_months_x self),
                             XInitMonthly (format_2f (monthly_amortization_amount_x self)),
                             XJournalHeader,
                             XDebitAsset (name_x self) (format_2f (total_cost_x self)),
                             XCreditCash (format_2f (total_cost_x self)), XRule], self))))"

text \<open>
  A call of a method of the object ends with an exception and the object as the call left
  it, or with the returned value, the printed lines and the object.
\<close>

type_synonym call = "(error \<times> expense_x) + (pyval \<times> line_x list \<times> expense_x)"

definition get_status_x :: "expense_x \<Rightarrow> call" where
  "get_status_x self = Inr (NoneVal, [XBookValue (format_2f (book_value_x self)), XRule], self)"

text \<open>
  The text of the date is made after the book value and the history were updated, and before
  anything is printed.
\<close>

definition amortize_for_period_x :: "pyobj \<Rightarrow> expense_x \<Rightarrow> call" where
  "amortize_for_period_x amortization_date self =
     (if pf_le (book_value_x self) (Finite 0) then
        (case strftime amortization_date of
           Inl e \<Rightarrow> Inl (e, self)
         | Inr d \<Rightarrow> Inr (NoneVal, [XFullyAmortized d (name_x self)], self))
      else
        let amount_to_amortize =
              pf_min (book_value_x self) (monthly_amortization_amount_x self);
            self1 = self\<lparr>book_value_x := pf_sub (book_value_x self) amount_to_amortize\<rparr>;
            trans = \<lparr> date_x = amortization_date, amortized_amount_x = amount_to_amortize,
                      remaining_book_value_x = book_value_x self1 \<rparr>;
            self2 = self1\<lparr>amortization_history_x := amortization_history_x self1 @ [trans]\<rparr>
        in case strftime amortization_date of
             Inl e \<Rightarrow> Inl (e, self2)
           | Inr d \<Rightarrow>
               (case get_status_x self2 of
                  Inl r \<Rightarrow> Inl r
                | Inr (v, out, self3) \<Rightarrow>
                    Inr (NoneVal,
                         [XAmortizeHeader d, XJournalHeader,
                          XDebitExpense (format_2f amount_to_amortize),
                          XCreditAsset (name_x self2) (format_2f amount_to_amortize)] @ out,
                         self3)))"

text \<open>
  The finite model inside this one: a finite amount, a date and a printed line of the first
  as they appear in the second.
\<close>

definition ext_transaction :: "transaction \<Rightarrow> transaction_x" where
  "ext_transaction t =
     \<lparr> date_x = DateObj (date t), amortized_amount_x = Finite (amortized_amount t),
       remaining_book_value_x = Finite (remaining_book_value t) \<rparr>"

definition ext_expense :: "expense \<Rightarrow> expense_x" where
  "ext_expense self =
     \<lparr> name_x = name self, total_cost_x = Finite (total_cost self),
       amortization_period_months_x = amortization_period_months self,
       start_date_x = start_date self, book_value_x = Finite (book_value self),
       monthly_amortization_amount_x = Finite (monthly_amortization_amount self),
       amortization_history_x = map ext_transaction (amortization_history self) \<rparr>"

fun ext_line :: "line \<Rightarrow> line_x" where
  "ext_line InitHeader = XInitHeader"
| "ext_line (InitName n) = XInitName n"
| "ext_line (InitCost x) = XInitCost (format_2f (Finite x))"
| "ext_line (InitPeriod k) = XInitPeriod k"
| "ext_line (InitMonthly x) = XInitMonthly (format_2f (Finite x))"
| "ext_line JournalHeader = XJournalHeader"
| "ext_line (DebitAsset n x) = XDebitAsset n (format_2f (Finite x))"
| "ext_line (CreditCash x) = XCreditCash (format_2f (Finite x))"
| "ext_line Rule = XRule"
| "ext_line (FullyAmortized d n) = XFullyAmortized d n"
| "ext_line (AmortizeHeader d) = XAmortizeHeader d"
| "ext_line (DebitExpense x) = XDebitExpense (format_2f (Finite x))"
| "ext_line (CreditAsset n x) = XCreditAsset n (format_2f (Finite x))"
| "ext_line (BookValue x) = XBookValue (format_2f (Finite x))"

section \<open>The specification's words\<close>

text \<open>
  Rounding to two decimals "half up", as the specification's expected values assume:
  an amount exactly between two cents goes to the larger one.
\<close>

definition spec_round_half_up :: "rat \<Rightarrow> rat" where
  "spec_round_half_up x = of_int \<lfloor>x * 100 + 1 / 2\<rfloor> / 100"

text \<open>The specification's number of calls after which the book value is said to be 0.\<close>

definition spec_calls_needed :: "expense \<Rightarrow> int" where
  "spec_calls_needed self = \<lceil>total_cost self / monthly_amortization_amount self\<rceil>"

section \<open>Rounding to an integer\<close>

lemma round_half_even_of_int: "round_half_even (of_int k) = k"
  by (simp add: round_half_even_def)

lemma round_half_even_bounds:
  "\<bar>of_int (round_half_even y) - y\<bar> \<le> 1 / 2"
  unfolding round_half_even_def Let_def
  by (auto simp: abs_if) linarith+

lemma round_half_even_mono: "x \<le> y \<Longrightarrow> round_half_even x \<le> round_half_even y"
proof -
  assume xy: "x \<le> y"
  have fm: "\<lfloor>x\<rfloor> \<le> \<lfloor>y\<rfloor>" using xy by (rule floor_mono)
  show ?thesis
  proof (cases "\<lfloor>x\<rfloor> = \<lfloor>y\<rfloor>")
    case True
    then show ?thesis using xy unfolding round_half_even_def Let_def by auto
  next
    case False
    with fm have "\<lfloor>x\<rfloor> + 1 \<le> \<lfloor>y\<rfloor>" by simp
    moreover have "round_half_even x \<le> \<lfloor>x\<rfloor> + 1" unfolding round_half_even_def Let_def by auto
    moreover have "\<lfloor>y\<rfloor> \<le> round_half_even y" unfolding round_half_even_def Let_def by auto
    ultimately show ?thesis by linarith
  qed
qed

lemma round_half_even_nonneg: "0 \<le> x \<Longrightarrow> 0 \<le> round_half_even x"
  using round_half_even_mono [of 0 x] round_half_even_of_int [of 0] by simp

lemma round_half_even_near:
  assumes "\<bar>y - of_int k\<bar> < 1 / 2"
  shows "round_half_even y = k"
proof -
  from assms have b: "of_int k - 1 / 2 < y" "y < of_int k + 1 / 2" by linarith+
  have "\<lfloor>y\<rfloor> = k \<or> \<lfloor>y\<rfloor> = k - 1"
  proof -
    have "k - 1 \<le> \<lfloor>y\<rfloor>" using b by linarith
    moreover have "\<lfloor>y\<rfloor> < k + 1" using b by linarith
    ultimately show ?thesis by linarith
  qed
  then show ?thesis
  proof
    assume f: "\<lfloor>y\<rfloor> = k"
    then show ?thesis using b by (simp add: round_half_even_def Let_def)
  next
    assume f: "\<lfloor>y\<rfloor> = k - 1"
    then show ?thesis using b by (simp add: round_half_even_def Let_def)
  qed
qed

section \<open>The binary exponent\<close>

lemma bitlen_powi_bounds:
  assumes "0 < p"
  shows "(2::rat) powi (bitlen p - 1) \<le> of_int p" and "of_int p < (2::rat) powi (bitlen p)"
proof -
  from assms have b1: "1 \<le> bitlen p" by (auto simp: bitlen_alt_def)
  from bitlen_bounds [OF assms] have lo: "2 ^ nat (bitlen p - 1) \<le> p" and hi: "p < 2 ^ nat (bitlen p)"
    by auto
  have "(of_int (2 ^ nat (bitlen p - 1)) :: rat) \<le> of_int p" using lo by (simp only: of_int_le_iff)
  then show "(2::rat) powi (bitlen p - 1) \<le> of_int p" using b1 by (simp add: power_int_def)
  have "(of_int p :: rat) < of_int (2 ^ nat (bitlen p))" using hi by (simp only: of_int_less_iff)
  then show "of_int p < (2::rat) powi (bitlen p)" using b1 by (simp add: power_int_def)
qed

lemma float_exponent_bounds:
  assumes "x \<noteq> 0"
  shows "2 powi float_exponent x \<le> \<bar>x\<bar>" and "\<bar>x\<bar> < 2 powi (float_exponent x + 1)"
proof -
  obtain p q where pq: "quotient_of \<bar>x\<bar> = (p, q)" by (cases "quotient_of \<bar>x\<bar>")
  then have q: "0 < q" by (rule quotient_of_denom_pos)
  from pq have x: "\<bar>x\<bar> = of_int p / of_int q" by (rule quotient_of_div)
  from assms have "0 < \<bar>x\<bar>" by simp
  with x q have p: "0 < p" by (simp add: zero_less_divide_iff)
  let ?d = "bitlen p - bitlen q"
  have up: "\<bar>x\<bar> < 2 powi (?d + 1)"
  proof -
    have "of_int p / of_int q < (2::rat) powi bitlen p / 2 powi (bitlen q - 1)"
      using bitlen_powi_bounds [OF p] bitlen_powi_bounds [OF q] p q
      by (intro frac_less) auto
    also have "\<dots> = 2 powi (?d + 1)"
      by (simp add: power_int_diff [symmetric] algebra_simps)
    finally show ?thesis using x by simp
  qed
  have lo: "2 powi (?d - 1) \<le> \<bar>x\<bar>"
  proof -
    have "(2::rat) powi (bitlen p - 1) / 2 powi bitlen q \<le> of_int p / of_int q"
      using bitlen_powi_bounds [OF p] bitlen_powi_bounds [OF q] p q
      by (intro frac_le) auto
    moreover have "(2::rat) powi (bitlen p - 1) / 2 powi bitlen q = 2 powi (?d - 1)"
      by (simp add: power_int_diff [symmetric] algebra_simps)
    ultimately show ?thesis using x by simp
  qed
  have fe: "float_exponent x = (if 2 powi ?d \<le> \<bar>x\<bar> then ?d else ?d - 1)"
    by (simp add: float_exponent_def pq Let_def)
  show "2 powi float_exponent x \<le> \<bar>x\<bar>" using lo by (simp add: fe)
  show "\<bar>x\<bar> < 2 powi (float_exponent x + 1)" using up by (auto simp add: fe not_le)
qed

lemma powi_exponent_unique:
  assumes "(2::rat) powi e \<le> y" "y < 2 powi (e + 1)" "2 powi e' \<le> y" "y < 2 powi (e' + 1)"
  shows "e = e'"
proof (rule ccontr)
  assume "e \<noteq> e'"
  then consider "e + 1 \<le> e'" | "e' + 1 \<le> e" by linarith
  then show False
  proof cases
    case 1
    then have "(2::rat) powi (e + 1) \<le> 2 powi e'" by (intro power_int_increasing) auto
    with assms show False by linarith
  next
    case 2
    then have "(2::rat) powi (e' + 1) \<le> 2 powi e" by (intro power_int_increasing) auto
    with assms show False by linarith
  qed
qed

lemma float_exponent_eq:
  "2 powi e \<le> \<bar>x\<bar> \<Longrightarrow> \<bar>x\<bar> < 2 powi (e + 1) \<Longrightarrow> float_exponent x = e"
proof -
  assume a: "2 powi e \<le> \<bar>x\<bar>" "\<bar>x\<bar> < 2 powi (e + 1)"
  have "(0::rat) < 2 powi e" by simp
  with a(1) have "0 < \<bar>x\<bar>" by linarith
  then have "x \<noteq> 0" by simp
  from float_exponent_bounds [OF this] a show ?thesis
    using powi_exponent_unique by blast
qed

section \<open>Rounding to a float\<close>

lemma ulp_pos: "0 < ulp x"
  by (simp add: ulp_def)

lemma ulp_eq:
  "2 powi e \<le> \<bar>x\<bar> \<Longrightarrow> \<bar>x\<bar> < 2 powi (e + 1) \<Longrightarrow> ulp x = 2 powi (max e (- 1022) - 52)"
  by (simp add: ulp_def float_exponent_eq)

lemma fl_eq:
  "2 powi e \<le> \<bar>x\<bar> \<Longrightarrow> \<bar>x\<bar> < 2 powi (e + 1) \<Longrightarrow>
     fl x = of_int (round_half_even (x / 2 powi (max e (- 1022) - 52))) * 2 powi (max e (- 1022) - 52)"
proof -
  assume a: "2 powi e \<le> \<bar>x\<bar>" "\<bar>x\<bar> < 2 powi (e + 1)"
  have "(0::rat) < 2 powi e" by simp
  with a(1) have "x \<noteq> 0" by linarith
  then show ?thesis by (simp add: fl_def ulp_eq [OF a])
qed

lemma fl_zero: "fl 0 = 0"
  by (simp add: fl_def)

lemma fl_nonneg: "0 \<le> x \<Longrightarrow> 0 \<le> fl x"
  using ulp_pos [of x] by (simp add: fl_def round_half_even_nonneg)

lemma fl_ge_grid:
  assumes "of_int c * ulp x \<le> x" "x \<noteq> 0"
  shows "of_int c * ulp x \<le> fl x"
proof -
  from assms(1) ulp_pos [of x] have "of_int c \<le> x / ulp x" by (simp add: pos_le_divide_eq)
  from round_half_even_mono [OF this] have "c \<le> round_half_even (x / ulp x)"
    by (simp add: round_half_even_of_int)
  then have "(of_int c :: rat) \<le> of_int (round_half_even (x / ulp x))" by simp
  then show ?thesis using ulp_pos [of x] assms(2) by (simp add: fl_def)
qed

lemma fl_le_grid:
  assumes "x \<le> of_int c * ulp x" "x \<noteq> 0"
  shows "fl x \<le> of_int c * ulp x"
proof -
  from assms(1) ulp_pos [of x] have "x / ulp x \<le> of_int c" by (simp add: pos_divide_le_eq)
  from round_half_even_mono [OF this] have "round_half_even (x / ulp x) \<le> c"
    by (simp add: round_half_even_of_int)
  then have "(of_int (round_half_even (x / ulp x)) :: rat) \<le> of_int c" by simp
  then show ?thesis using ulp_pos [of x] assms(2) by (simp add: fl_def)
qed

lemma fl_grid:
  assumes "x = of_int k * 2 powi j" "max (float_exponent x) (- 1022) - 52 \<le> j"
  shows "fl x = x"
proof (cases "x = 0")
  case True then show ?thesis by (simp add: fl_zero)
next
  case False
  let ?E = "max (float_exponent x) (- 1022) - 52"
  have u: "ulp x = 2 powi ?E" by (simp add: ulp_def)
  have "2 powi j / 2 powi ?E = (2::rat) powi (j - ?E)"
    by (rule power_int_diff [symmetric]) simp
  also have "\<dots> = 2 ^ nat (j - ?E)"
    using assms(2) by (intro power_int_nonneg_exp) simp
  finally have p: "2 powi j / 2 powi ?E = (2::rat) ^ nat (j - ?E)" .
  have "x / ulp x = x / 2 powi ?E" by (simp only: u)
  also have "\<dots> = of_int k * (2 powi j / 2 powi ?E)" using assms(1) by simp
  also have "\<dots> = of_int k * 2 ^ nat (j - ?E)" by (simp only: p)
  finally have "x / ulp x = of_int (k * 2 ^ nat (j - ?E))" by simp
  then have "round_half_even (x / ulp x) = k * 2 ^ nat (j - ?E)"
    by (simp only: round_half_even_of_int)
  then have "fl x = of_int (k * 2 ^ nat (j - ?E)) * ulp x" using False by (simp add: fl_def)
  also have "\<dots> = x / ulp x * ulp x" using \<open>x / ulp x = of_int (k * 2 ^ nat (j - ?E))\<close> by simp
  also have "\<dots> = x" using ulp_pos [of x] by simp
  finally show ?thesis .
qed

lemma powi_shift: "(2::rat) powi (m - int n) * 2 ^ n = 2 powi m"
proof -
  have "(2::rat) powi m = 2 powi ((m - int n) + int n)" by simp
  also have "\<dots> = 2 powi (m - int n) * 2 powi (int n)" by (rule power_int_add) simp
  finally show ?thesis by simp
qed

lemma ulp_times_52: "of_int (2 ^ 52) * ulp x = 2 powi (max (float_exponent x) (- 1022))"
  using powi_shift [of "max (float_exponent x) (- 1022)" 52]
  by (simp add: ulp_def mult.commute)

lemma ulp_times_53: "of_int (2 ^ 53) * ulp x = 2 powi (max (float_exponent x) (- 1022) + 1)"
proof -
  have "of_int (2 ^ 53) * ulp x = 2 * (of_int (2 ^ 52) * ulp x)" by simp
  also have "\<dots> = 2 * 2 powi (max (float_exponent x) (- 1022))" by (simp only: ulp_times_52)
  also have "\<dots> = 2 powi (max (float_exponent x) (- 1022) + 1)"
    by (simp add: power_int_add)
  finally show ?thesis .
qed

lemma powi_less_exp: "(2::rat) powi a < 2 powi b \<Longrightarrow> a < b"
proof (rule ccontr)
  assume l: "(2::rat) powi a < 2 powi b" and "\<not> a < b"
  then have "b \<le> a" by simp
  then have "(2::rat) powi b \<le> 2 powi a" by (intro power_int_increasing) auto
  with l show False by simp
qed

lemma fl_upper:
  assumes "0 < x"
  shows "fl x \<le> 2 powi (max (float_exponent x) (- 1022) + 1)"
proof -
  from assms have nz: "x \<noteq> 0" by simp
  from float_exponent_bounds(2) [OF nz] assms have "x < 2 powi (float_exponent x + 1)" by simp
  also have "\<dots> \<le> 2 powi (max (float_exponent x) (- 1022) + 1)"
    by (intro power_int_increasing) auto
  finally have "x \<le> of_int (2 ^ 53) * ulp x" by (simp only: ulp_times_53)
  from fl_le_grid [OF this nz] show ?thesis by (simp only: ulp_times_53)
qed

lemma fl_lower:
  assumes "0 < x" "- 1022 \<le> float_exponent x"
  shows "2 powi (float_exponent x) \<le> fl x"
proof -
  from assms have nz: "x \<noteq> 0" by simp
  have m: "max (float_exponent x) (- 1022) = float_exponent x" using assms(2) by simp
  from float_exponent_bounds(1) [OF nz] assms have "2 powi (float_exponent x) \<le> x" by simp
  then have "of_int (2 ^ 52) * ulp x \<le> x" by (simp only: ulp_times_52 m)
  from fl_ge_grid [OF this nz] show ?thesis by (simp only: ulp_times_52 m)
qed

lemma fl_idem_pos:
  assumes "0 < x"
  shows "fl (fl x) = fl x"
proof -
  let ?m = "max (float_exponent x) (- 1022)"
  let ?y = "fl x"
  from assms have nz: "x \<noteq> 0" by simp
  have y: "?y = of_int (round_half_even (x / ulp x)) * 2 powi (?m - 52)"
    using nz by (simp add: fl_def ulp_def)
  have ynn: "0 \<le> ?y" using assms by (intro fl_nonneg) simp
  from fl_upper [OF assms] have "?y < 2 powi (?m + 1) \<or> ?y = 2 powi (?m + 1)" by linarith
  then show ?thesis
  proof
    assume lt: "?y < 2 powi (?m + 1)"
    show ?thesis
    proof (cases "?y = 0")
      case True then show ?thesis by (simp add: fl_zero)
    next
      case False
      from float_exponent_bounds(1) [OF False] ynn have "2 powi float_exponent ?y \<le> ?y" by simp
      with lt have "(2::rat) powi float_exponent ?y < 2 powi (?m + 1)" by linarith
      then have "float_exponent ?y < ?m + 1" by (rule powi_less_exp)
      then have "max (float_exponent ?y) (- 1022) - 52 \<le> ?m - 52" by simp
      with y show ?thesis by (rule fl_grid)
    qed
  next
    assume eq: "?y = 2 powi (?m + 1)"
    have "(2::rat) powi (?m + 1) < 2 powi (?m + 1 + 1)" by (intro power_int_strict_increasing) auto
    with eq have "float_exponent ?y = ?m + 1" by (intro float_exponent_eq) simp_all
    then have "max (float_exponent ?y) (- 1022) - 52 \<le> ?m + 1" by simp
    moreover from eq have "?y = of_int 1 * 2 powi (?m + 1)" by simp
    ultimately show ?thesis by (intro fl_grid)
  qed
qed

lemma fl_mono_nonneg:
  assumes "0 \<le> x" "x \<le> y"
  shows "fl x \<le> fl y"
proof (cases "x = 0")
  case True
  with assms show ?thesis by (simp add: fl_zero fl_nonneg)
next
  case False
  with assms have xp: "0 < x" and yp: "0 < y" by simp_all
  then have nzx: "x \<noteq> 0" and nzy: "y \<noteq> 0" by simp_all
  let ?mx = "max (float_exponent x) (- 1022)"
  let ?my = "max (float_exponent y) (- 1022)"
  have "2 powi float_exponent x \<le> x" using float_exponent_bounds(1) [OF nzx] xp by simp
  also note assms(2)
  also have "y < 2 powi (float_exponent y + 1)" using float_exponent_bounds(2) [OF nzy] yp by simp
  finally have "float_exponent x < float_exponent y + 1" by (rule powi_less_exp)
  then have le: "?mx \<le> ?my" by simp
  show ?thesis
  proof (cases "?mx = ?my")
    case True
    then have u: "ulp x = ulp y" by (simp add: ulp_def)
    have "x / ulp y \<le> y / ulp y" using assms(2) ulp_pos [of y] by (simp add: divide_right_mono)
    from round_half_even_mono [OF this]
    have "(of_int (round_half_even (x / ulp y)) :: rat) \<le> of_int (round_half_even (y / ulp y))"
      by simp
    then show ?thesis using nzx nzy ulp_pos [of y] by (simp add: fl_def u)
  next
    case False
    with le have lt: "?mx + 1 \<le> ?my" by simp
    then have ey: "- 1022 \<le> float_exponent y" and my: "?my = float_exponent y" by simp_all
    have "fl x \<le> 2 powi (?mx + 1)" by (rule fl_upper [OF xp])
    also have "\<dots> \<le> 2 powi float_exponent y" using lt my by (intro power_int_increasing) auto
    also have "\<dots> \<le> fl y" by (rule fl_lower [OF yp ey])
    finally show ?thesis .
  qed
qed

lemma fl_error: "\<bar>fl x - x\<bar> \<le> ulp x / 2"
proof (cases "x = 0")
  case True then show ?thesis using ulp_pos [of x] by (simp add: fl_zero)
next
  case False
  have "\<bar>of_int (round_half_even (x / ulp x)) - x / ulp x\<bar> * ulp x \<le> 1 / 2 * ulp x"
    using round_half_even_bounds [of "x / ulp x"] ulp_pos [of x]
    by (intro mult_right_mono) simp_all
  moreover have "\<bar>of_int (round_half_even (x / ulp x)) - x / ulp x\<bar> * ulp x
      = \<bar>of_int (round_half_even (x / ulp x)) * ulp x - x\<bar>"
  proof -
    have "\<bar>of_int (round_half_even (x / ulp x)) - x / ulp x\<bar> * ulp x
        = \<bar>(of_int (round_half_even (x / ulp x)) - x / ulp x) * ulp x\<bar>"
      using ulp_pos [of x] by (simp add: abs_mult)
    also have "(of_int (round_half_even (x / ulp x)) - x / ulp x) * ulp x
        = of_int (round_half_even (x / ulp x)) * ulp x - x"
      using ulp_pos [of x] by (simp add: left_diff_distrib)
    finally show ?thesis .
  qed
  ultimately show ?thesis using False by (simp add: fl_def)
qed

lemma fl_val:
  assumes "2 powi e \<le> \<bar>x\<bar>" "\<bar>x\<bar> < 2 powi (e + 1)" "- 1022 \<le> e"
    and "\<bar>x / 2 powi (e - 52) - of_int n\<bar> < 1 / 2"
  shows "fl x = of_int n * 2 powi (e - 52)"
proof -
  have m: "max e (- 1022) = e" using assms(3) by simp
  from round_half_even_near [OF assms(4)] show ?thesis
    by (simp add: fl_eq [OF assms(1,2)] m)
qed

lemma fl_of_int:
  assumes "\<bar>k\<bar> < 2 ^ 53"
  shows "fl (of_int k) = of_int k"
proof (cases "k = 0")
  case True then show ?thesis by (simp add: fl_zero)
next
  case False
  let ?x = "of_int k :: rat"
  from False have nz: "?x \<noteq> 0" by simp
  have "\<bar>?x\<bar> < 2 ^ 53" using assms by (metis of_int_abs of_int_less_numeral_power_cancel_iff)
  then have "\<bar>?x\<bar> < 2 powi 53" by simp
  with float_exponent_bounds(1) [OF nz] have "(2::rat) powi float_exponent ?x < 2 powi 53"
    by linarith
  then have "float_exponent ?x < 53" by (rule powi_less_exp)
  then have "max (float_exponent ?x) (- 1022) - 52 \<le> 0" by simp
  moreover have "?x = of_int k * 2 powi 0" by simp
  ultimately show ?thesis by (rule fl_grid [rotated])
qed

lemma fl_numeral: "(numeral w :: int) < 2 ^ 53 \<Longrightarrow> fl (numeral w) = numeral w"
  using fl_of_int [of "numeral w"] by simp

lemma fl_one: "fl 1 = 1"
  using fl_of_int [of 1] by simp

lemma round_half_even_numeral: "round_half_even (numeral w) = numeral w"
  using round_half_even_of_int [of "numeral w"] by simp

lemma round_half_even_zero: "round_half_even 0 = 0"
  using round_half_even_of_int [of 0] by simp

lemma floor_rat_numeral_div:
  "\<lfloor>(numeral a :: rat) / numeral b\<rfloor> = numeral a div numeral b"
  using floor_divide_of_int_eq [of "numeral a" "numeral b", where ?'a = rat] by simp

section \<open>The terminal state\<close>

lemma amortize_for_period_done:
  "book_value self \<le> 0 \<Longrightarrow>
     amortize_for_period d self = ([FullyAmortized d (name self)], self)"
  by (simp add: amortize_for_period_def)

lemma amortize_all_done: "book_value self \<le> 0 \<Longrightarrow> amortize_all ds self = self"
  by (induction ds) (simp_all add: amortize_for_period_done)

text \<open>
  C4. When \<open>book_value \<le> 0\<close>, a call of \<^verbatim>\<open>amortize_for_period\<close> with any date prints the
  "fully amortized" line only and returns the object as it was: nothing is appended to the
  history, and neither the book value nor any other field changes. The same holds for any
  number of further calls.
\<close>

theorem terminal_state_idempotent:
  "book_value self \<le> 0 \<Longrightarrow>
     amortize_for_period d self = ([FullyAmortized d (name self)], self)
     \<and> amortization_history (snd (amortize_for_period d self)) = amortization_history self
     \<and> book_value (snd (amortize_for_period d self)) = book_value self
     \<and> amortize_all ds self = self"
  by (simp add: amortize_for_period_done amortize_all_done)

theorem terminal_state_idempotent_witness:
  "book_value \<lparr> name = ''fit-out'', total_cost = 100, amortization_period_months = 4,
       start_date = Date 2025 1 1, book_value = 0, monthly_amortization_amount = 25,
       amortization_history = [] \<rparr> \<le> 0
   \<and> amortize_all [Date 2025 5 1, Date 2025 6 1]
       \<lparr> name = ''fit-out'', total_cost = 100, amortization_period_months = 4,
         start_date = Date 2025 1 1, book_value = 0, monthly_amortization_amount = 25,
         amortization_history = [] \<rparr>
     = \<lparr> name = ''fit-out'', total_cost = 100, amortization_period_months = 4,
         start_date = Date 2025 1 1, book_value = 0, monthly_amortization_amount = 25,
         amortization_history = [] \<rparr>"
proof -
  let ?s = "\<lparr> name = ''fit-out'', total_cost = 100, amortization_period_months = 4,
       start_date = Date 2025 1 1, book_value = 0, monthly_amortization_amount = 25,
       amortization_history = [] \<rparr>"
  have h: "book_value ?s \<le> 0" by simp
  from terminal_state_idempotent [OF h]
  have "amortize_all [Date 2025 5 1, Date 2025 6 1] ?s = ?s" by blast
  with h show ?thesis by blast
qed

section \<open>The date of a period\<close>

text \<open>
  C9. In any state, two calls of \<^verbatim>\<open>amortize_for_period\<close> with dates \<open>d1\<close> and \<open>d2\<close>
  amortize the same amounts and leave the same book value and the same other fields: the
  date only enters the appended record (and the printed lines). The result is a function
  of the state and the date.
\<close>

theorem date_noninterference:
  "book_value (snd (amortize_for_period d1 self)) = book_value (snd (amortize_for_period d2 self))
   \<and> map amortized_amount (amortization_history (snd (amortize_for_period d1 self)))
       = map amortized_amount (amortization_history (snd (amortize_for_period d2 self)))
   \<and> map remaining_book_value (amortization_history (snd (amortize_for_period d1 self)))
       = map remaining_book_value (amortization_history (snd (amortize_for_period d2 self)))
   \<and> butlast (map date (amortization_history (snd (amortize_for_period d1 self))))
       = butlast (map date (amortization_history (snd (amortize_for_period d2 self))))
   \<and> (snd (amortize_for_period d1 self))\<lparr>amortization_history := []\<rparr>
       = (snd (amortize_for_period d2 self))\<lparr>amortization_history := []\<rparr>"
  by (simp add: amortize_for_period_def get_status_def Let_def)

section \<open>Calls of \<^verbatim>\<open>amortize_for_period\<close>\<close>

lemma py_min_le: "py_min a b \<le> a" and py_min_nonneg: "0 \<le> a \<Longrightarrow> 0 \<le> b \<Longrightarrow> 0 \<le> py_min a b"
  by (simp_all add: py_min_def)

lemma amortize_for_period_active:
  "0 < book_value self \<Longrightarrow>
     snd (amortize_for_period d self) =
       self\<lparr> book_value := fl (book_value self - py_min (book_value self) (monthly_amortization_amount self)),
             amortization_history := amortization_history self @
               [\<lparr> date = d,
                  amortized_amount = py_min (book_value self) (monthly_amortization_amount self),
                  remaining_book_value =
                    fl (book_value self - py_min (book_value self) (monthly_amortization_amount self)) \<rparr>] \<rparr>"
  by (simp add: amortize_for_period_def get_status_def float_sub_def Let_def)

lemma amortize_for_period_frame:
  "name (snd (amortize_for_period d self)) = name self"
  "total_cost (snd (amortize_for_period d self)) = total_cost self"
  "amortization_period_months (snd (amortize_for_period d self)) = amortization_period_months self"
  "start_date (snd (amortize_for_period d self)) = start_date self"
  "monthly_amortization_amount (snd (amortize_for_period d self)) = monthly_amortization_amount self"
  by (simp_all add: amortize_for_period_def get_status_def Let_def)

lemma amortize_all_frame:
  "total_cost (amortize_all ds self) = total_cost self"
  "monthly_amortization_amount (amortize_all ds self) = monthly_amortization_amount self"
  by (induction ds arbitrary: self) (simp_all add: amortize_for_period_frame)

lemma amortize_all_snoc:
  "amortize_all (ds @ [d]) self = snd (amortize_for_period d (amortize_all ds self))"
  by (induction ds arbitrary: self) simp_all

lemma amortize_all_append:
  "amortize_all (ds @ ds') self = amortize_all ds' (amortize_all ds self)"
  by (induction ds arbitrary: self) simp_all

lemma fl_idem_nonneg: "0 \<le> x \<Longrightarrow> fl (fl x) = fl x"
  by (cases "x = 0") (simp_all add: fl_zero fl_idem_pos)

lemma amortize_for_period_is_float:
  assumes "is_float (book_value self)" "0 \<le> book_value self"
    and "0 \<le> monthly_amortization_amount self"
  shows "is_float (book_value (snd (amortize_for_period d self)))"
    and "0 \<le> book_value (snd (amortize_for_period d self))"
    and "book_value (snd (amortize_for_period d self)) \<le> book_value self"
proof -
  let ?b = "book_value self"
  let ?a = "py_min ?b (monthly_amortization_amount self)"
  let ?s = "snd (amortize_for_period d self)"
  have "is_float (book_value ?s) \<and> 0 \<le> book_value ?s \<and> book_value ?s \<le> ?b"
  proof (cases "?b \<le> 0")
    case True
    then show ?thesis using assms by (simp add: amortize_for_period_done)
  next
    case False
    then have pos: "0 < ?b" by simp
    have bv: "book_value ?s = fl (?b - ?a)" by (simp add: amortize_for_period_active [OF pos])
    have a: "0 \<le> ?a" "?a \<le> ?b" using assms by (simp_all add: py_min_def)
    then have z: "0 \<le> ?b - ?a" "?b - ?a \<le> ?b" by simp_all
    have nn: "0 \<le> fl (?b - ?a)" using z(1) by (rule fl_nonneg)
    have "fl (?b - ?a) \<le> fl ?b" using z by (rule fl_mono_nonneg)
    also have "fl ?b = ?b" using assms(1) by (simp add: is_float_def)
    finally have le: "fl (?b - ?a) \<le> ?b" .
    have "\<bar>fl (?b - ?a)\<bar> < 2 ^ 1024" using nn le assms(1) by (simp add: is_float_def)
    moreover have "fl (fl (?b - ?a)) = fl (?b - ?a)" using z(1) by (rule fl_idem_nonneg)
    ultimately show ?thesis using nn le by (simp add: bv is_float_def)
  qed
  then show "is_float (book_value ?s)" "0 \<le> book_value ?s" "book_value ?s \<le> ?b" by simp_all
qed

lemma amortize_all_is_float:
  assumes "is_float (book_value self)" "0 \<le> book_value self"
    and "0 \<le> monthly_amortization_amount self"
  shows "is_float (book_value (amortize_all ds self)) \<and> 0 \<le> book_value (amortize_all ds self)
         \<and> book_value (amortize_all ds self) \<le> book_value self"
  using assms
proof (induction ds arbitrary: self)
  case Nil
  then show ?case by simp
next
  case (Cons d ds)
  let ?s = "snd (amortize_for_period d self)"
  note st = amortize_for_period_is_float [OF Cons.prems, of d]
  have m: "0 \<le> monthly_amortization_amount ?s" using Cons.prems(3) by (simp add: amortize_for_period_frame)
  from Cons.IH [OF st(1) st(2) m] st(3) show ?case by simp
qed

section \<open>Construction\<close>

lemma round2_nonneg: "0 \<le> x \<Longrightarrow> 0 \<le> round2 x"
  unfolding round2_def by (intro fl_nonneg divide_nonneg_nonneg) (simp_all add: round_half_even_nonneg)

lemma init_Inr:
  assumes "init nm cost months start = Inr (out, a)"
  shows "0 < months" and "\<bar>fl (of_int months)\<bar> < 2 ^ 1024" and "fl (of_int months) \<noteq> 0"
    and "a = \<lparr> name = nm, total_cost = cost, amortization_period_months = months,
               start_date = start, book_value = cost,
               monthly_amortization_amount = round2 (fl (cost / fl (of_int months))),
               amortization_history = [] \<rparr>"
  using assms
  by (auto simp: init_def int_to_float_def float_truediv_def Let_def split: if_splits sum.splits)

lemma init_monthly_nonneg:
  assumes "init nm cost months start = Inr (out, a)" "0 \<le> cost"
  shows "0 \<le> monthly_amortization_amount a"
proof -
  from init_Inr(1) [OF assms(1)] have "0 \<le> fl (of_int months)" by (intro fl_nonneg) simp
  with assms(2) have "0 \<le> cost / fl (of_int months)" by simp
  then have "0 \<le> round2 (fl (cost / fl (of_int months)))" by (intro round2_nonneg fl_nonneg)
  then show ?thesis by (simp add: init_Inr(4) [OF assms(1)])
qed

lemma init_val:
  assumes "0 < months" "fl (of_int months) = mf" "\<bar>mf\<bar> < 2 ^ 1024" "mf \<noteq> 0"
    and "fl (cost / mf) = q" "round2 q = m"
  shows "init nm cost months start =
     Inr ([InitHeader, InitName nm, InitCost cost, InitPeriod months, InitMonthly m,
           JournalHeader, DebitAsset nm cost, CreditCash cost, Rule],
          \<lparr> name = nm, total_cost = cost, amortization_period_months = months,
            start_date = start, book_value = cost, monthly_amortization_amount = m,
            amortization_history = [] \<rparr>)"
  using assms by (simp add: init_def int_to_float_def float_truediv_def Let_def)

lemma is_float_numeral: "(numeral w :: int) < 2 ^ 53 \<Longrightarrow> is_float (numeral w)"
proof -
  assume a: "(numeral w :: int) < 2 ^ 53"
  then have "(numeral w :: int) < 2 ^ 1024" by (rule less_trans) simp
  then have "(of_int (numeral w) :: rat) < of_int (2 ^ 1024)" by (simp only: of_int_less_iff)
  then have "\<bar>numeral w :: rat\<bar> < 2 ^ 1024" by simp
  with fl_numeral [OF a] show ?thesis by (simp add: is_float_def)
qed

lemma is_float_grid:
  assumes "x = of_int k * 2 powi j" "2 powi e \<le> \<bar>x\<bar>" "\<bar>x\<bar> < 2 powi (e + 1)"
    and "max e (- 1022) - 52 \<le> j" "e < 1024"
  shows "is_float x"
proof -
  have "float_exponent x = e" using assms(2,3) by (rule float_exponent_eq)
  with assms(4) have "max (float_exponent x) (- 1022) - 52 \<le> j" by simp
  with assms(1) have "fl x = x" by (rule fl_grid)
  moreover have "(2::rat) powi (e + 1) \<le> 2 powi 1024"
    using assms(5) by (intro power_int_increasing) auto
  with assms(3) have "\<bar>x\<bar> < 2 ^ 1024" by simp
  ultimately show ?thesis by (simp add: is_float_def)
qed

section \<open>Bounds of the book value\<close>

lemma init_100_4:
  "init ''fit-out'' 100 4 (Date 2025 1 1) =
     Inr ([InitHeader, InitName ''fit-out'', InitCost 100, InitPeriod 4, InitMonthly 25,
           JournalHeader, DebitAsset ''fit-out'' 100, CreditCash 100, Rule],
          \<lparr> name = ''fit-out'', total_cost = 100, amortization_period_months = 4,
            start_date = Date 2025 1 1, book_value = 100, monthly_amortization_amount = 25,
            amortization_history = [] \<rparr>)"
  by (rule init_val [where mf = 4 and q = 25])
     (simp_all add: fl_numeral round2_def round_half_even_numeral)

text \<open>
  C7 as stated fails: infinity is a non-negative float, and construction accepts it. The
  monthly amount is then infinite, the first period takes \<^verbatim>\<open>min(inf, inf)\<close>, and the book value
  becomes \<^verbatim>\<open>inf - inf\<close>, which is NaN: it is neither at least 0 nor at most \<open>total_cost\<close>.
\<close>

theorem book_value_nan_counterexample:
  "pf_le (Finite 0) PosInf
   \<and> init_x ''vault'' PosInf 1 (Date 2025 1 1) =
       Inr ([XInitHeader, XInitName ''vault'', XInitCost ShownInf, XInitPeriod 1,
             XInitMonthly ShownInf, XJournalHeader, XDebitAsset ''vault'' ShownInf,
             XCreditCash ShownInf, XRule],
            \<lparr> name_x = ''vault'', total_cost_x = PosInf, amortization_period_months_x = 1,
              start_date_x = Date 2025 1 1, book_value_x = PosInf,
              monthly_amortization_amount_x = PosInf, amortization_history_x = [] \<rparr>)
   \<and> amortize_for_period_x (DateObj (Date 2025 1 1))
         \<lparr> name_x = ''vault'', total_cost_x = PosInf, amortization_period_months_x = 1,
           start_date_x = Date 2025 1 1, book_value_x = PosInf,
           monthly_amortization_amount_x = PosInf, amortization_history_x = [] \<rparr> =
       Inr (NoneVal,
            [XAmortizeHeader (Date 2025 1 1), XJournalHeader, XDebitExpense ShownInf,
             XCreditAsset ''vault'' ShownInf, XBookValue ShownNaN, XRule],
            \<lparr> name_x = ''vault'', total_cost_x = PosInf, amortization_period_months_x = 1,
              start_date_x = Date 2025 1 1, book_value_x = NaN,
              monthly_amortization_amount_x = PosInf,
              amortization_history_x =
                [\<lparr> date_x = DateObj (Date 2025 1 1), amortized_amount_x = PosInf,
                   remaining_book_value_x = NaN \<rparr>] \<rparr>)
   \<and> \<not> pf_le (Finite 0) NaN \<and> \<not> pf_le NaN PosInf"
proof -
  have "\<bar>fl (of_int 1)\<bar> < 2 ^ 1024" "fl (of_int 1) = 1" by (simp_all add: fl_one)
  then show ?thesis
    by (simp add: init_x_def int_to_float_def pf_truediv_def pf_round2_def
        amortize_for_period_x_def get_status_x_def strftime_def pf_min_def Let_def)
qed

text \<open>
  C7, amended: for an expense constructed with a finite non-negative float \<open>total_cost\<close>, the
  book value starts at \<open>total_cost\<close>; after any sequence of calls of \<^verbatim>\<open>amortize_for_period\<close>
  it lies between 0 and \<open>total_cost\<close>; one more call never increases it; and \<^verbatim>\<open>get_status\<close>
  leaves it as it is.
\<close>

theorem book_value_bounds:
  assumes "is_float cost" "0 \<le> cost" "init nm cost months start = Inr (out, a)"
  shows "book_value a = cost \<and> total_cost (amortize_all ds a) = cost
       \<and> 0 \<le> book_value (amortize_all ds a)
       \<and> book_value (amortize_all ds a) \<le> total_cost (amortize_all ds a)
       \<and> book_value (snd (amortize_for_period d (amortize_all ds a))) \<le> book_value (amortize_all ds a)
       \<and> book_value (snd (get_status (amortize_all ds a))) = book_value (amortize_all ds a)"
proof -
  have a: "book_value a = cost" "total_cost a = cost" by (simp_all add: init_Inr(4) [OF assms(3)])
  have m: "0 \<le> monthly_amortization_amount a" using assms(3,2) by (rule init_monthly_nonneg)
  have f: "is_float (book_value a)" "0 \<le> book_value a" using assms a by simp_all
  note run = amortize_all_is_float [OF f m, of ds]
  have m': "0 \<le> monthly_amortization_amount (amortize_all ds a)" using m by (simp add: amortize_all_frame)
  from run have r: "is_float (book_value (amortize_all ds a))" "0 \<le> book_value (amortize_all ds a)"
    by simp_all
  note st = amortize_for_period_is_float(3) [OF r m', of d]
  show ?thesis using a run st by (simp add: amortize_all_frame get_status_def)
qed

theorem book_value_bounds_witness:
  "is_float 100 \<and> (0::rat) \<le> 100
   \<and> init ''fit-out'' 100 4 (Date 2025 1 1) =
     Inr ([InitHeader, InitName ''fit-out'', InitCost 100, InitPeriod 4, InitMonthly 25,
           JournalHeader, DebitAsset ''fit-out'' 100, CreditCash 100, Rule],
          \<lparr> name = ''fit-out'', total_cost = 100, amortization_period_months = 4,
            start_date = Date 2025 1 1, book_value = 100, monthly_amortization_amount = 25,
            amortization_history = [] \<rparr>)
   \<and> 0 \<le> book_value (amortize_all [Date 2025 1 1, Date 2025 2 1]
        \<lparr> name = ''fit-out'', total_cost = 100, amortization_period_months = 4,
          start_date = Date 2025 1 1, book_value = 100, monthly_amortization_amount = 25,
          amortization_history = [] \<rparr>)
   \<and> book_value (amortize_all [Date 2025 1 1, Date 2025 2 1]
        \<lparr> name = ''fit-out'', total_cost = 100, amortization_period_months = 4,
          start_date = Date 2025 1 1, book_value = 100, monthly_amortization_amount = 25,
          amortization_history = [] \<rparr>) \<le> 100"
proof -
  let ?a = "\<lparr> name = ''fit-out'', total_cost = 100, amortization_period_months = 4,
            start_date = Date 2025 1 1, book_value = 100, monthly_amortization_amount = 25,
            amortization_history = [] \<rparr>"
  have f: "is_float 100" by (rule is_float_numeral) simp
  have n: "(0::rat) \<le> 100" by simp
  from book_value_bounds [OF f n init_100_4, of "[Date 2025 1 1, Date 2025 2 1]"]
  have "0 \<le> book_value (amortize_all [Date 2025 1 1, Date 2025 2 1] ?a)"
    and "book_value (amortize_all [Date 2025 1 1, Date 2025 2 1] ?a) \<le> 100"
    by (simp_all only: amortize_all_frame expense.simps)
  with f n init_100_4 show ?thesis by blast
qed

section \<open>A monthly amount of zero\<close>

lemma py_min_zero: "0 < b \<Longrightarrow> py_min b 0 = 0"
  by (simp add: py_min_def)

lemma zero_monthly_run:
  assumes "fl (book_value self) = book_value self" "0 < book_value self"
    and "monthly_amortization_amount self = 0"
  shows "book_value (amortize_all ds self) = book_value self
       \<and> length (amortization_history (amortize_all ds self))
           = length (amortization_history self) + length ds
       \<and> map amortized_amount (amortization_history (amortize_all ds self))
           = map amortized_amount (amortization_history self) @ replicate (length ds) 0
       \<and> map remaining_book_value (amortization_history (amortize_all ds self))
           = map remaining_book_value (amortization_history self)
             @ replicate (length ds) (book_value self)"
  using assms
proof (induction ds arbitrary: self)
  case Nil
  then show ?case by simp
next
  case (Cons d ds)
  let ?s = "snd (amortize_for_period d self)"
  have s: "?s = self\<lparr> amortization_history := amortization_history self @
              [\<lparr> date = d, amortized_amount = 0, remaining_book_value = book_value self \<rparr>] \<rparr>"
    using Cons.prems by (simp add: amortize_for_period_active py_min_zero)
  have p: "fl (book_value ?s) = book_value ?s" "0 < book_value ?s"
    "monthly_amortization_amount ?s = 0"
    using Cons.prems by (simp_all add: s)
  from Cons.IH [OF p] show ?case by (simp add: s replicate_append_same [symmetric] del: replicate.simps)
       (simp add: replicate_app_Cons_same)
qed

lemma fl_cent_third:
  "fl (5764607523034235 / 576460752303423488 / 3) = 7686143364045647 / 2305843009213693952"
  by (rule trans [OF fl_val [where e = "- 9" and n = 7686143364045647]]) simp_all

lemma round2_cent_third: "round2 (7686143364045647 / 2305843009213693952) = 0"
proof -
  have "round_half_even (7686143364045647 / 2305843009213693952 * 100) = 0"
    by (rule round_half_even_near) simp
  then show ?thesis by (simp add: round2_def fl_zero)
qed

lemma is_float_cent: "is_float (5764607523034235 / 576460752303423488)"
  by (rule is_float_grid [where k = 5764607523034235 and j = "- 59" and e = "- 7"]) simp_all

lemma init_cent_3:
  "init ''stamp'' (5764607523034235 / 576460752303423488) 3 (Date 2025 1 1) =
     Inr ([InitHeader, InitName ''stamp'', InitCost (5764607523034235 / 576460752303423488),
           InitPeriod 3, InitMonthly 0, JournalHeader,
           DebitAsset ''stamp'' (5764607523034235 / 576460752303423488),
           CreditCash (5764607523034235 / 576460752303423488), Rule],
          \<lparr> name = ''stamp'', total_cost = 5764607523034235 / 576460752303423488,
            amortization_period_months = 3, start_date = Date 2025 1 1,
            book_value = 5764607523034235 / 576460752303423488,
            monthly_amortization_amount = 0, amortization_history = [] \<rparr>)"
proof (rule init_val [where mf = 3 and q = "7686143364045647 / 2305843009213693952"])
  show "fl (5764607523034235 / 576460752303423488 / 3) = 7686143364045647 / 2305843009213693952"
    by (rule fl_cent_third)
  show "round2 (7686143364045647 / 2305843009213693952) = 0"
    by (rule round2_cent_third)
qed (simp_all add: fl_numeral)

text \<open>
  C10. When an expense is constructed with \<open>total_cost > 0\<close> (a finite float) and its
  monthly amount \<^verbatim>\<open>round(total_cost / months, 2)\<close> is 0 (as for \<^verbatim>\<open>0.01\<close> over 3 months), every
  call of \<^verbatim>\<open>amortize_for_period\<close> appends a record with \<open>amortized_amount = 0\<close> and leaves
  the book value at \<open>total_cost\<close>: the book value never reaches 0 and the history grows by
  one record with every call.
\<close>

theorem zero_monthly_amount_never_terminates:
  assumes "is_float cost" "0 < cost" "init nm cost months start = Inr (out, a)"
    and "monthly_amortization_amount a = 0"
  shows "book_value (amortize_all ds a) = cost \<and> book_value (amortize_all ds a) \<noteq> 0
       \<and> length (amortization_history (amortize_all ds a)) = length ds
       \<and> map amortized_amount (amortization_history (amortize_all ds a)) = replicate (length ds) 0
       \<and> map remaining_book_value (amortization_history (amortize_all ds a))
           = replicate (length ds) cost"
proof -
  have a: "book_value a = cost" "amortization_history a = []"
    by (simp_all add: init_Inr(4) [OF assms(3)])
  have f: "fl (book_value a) = book_value a" using assms(1) a by (simp add: is_float_def)
  have p: "0 < book_value a" using assms(2) a by simp
  from zero_monthly_run [OF f p assms(4), of ds] assms(2) show ?thesis by (simp add: a)
qed

theorem zero_monthly_amount_never_terminates_witness:
  "is_float (5764607523034235 / 576460752303423488)
   \<and> (0::rat) < 5764607523034235 / 576460752303423488
   \<and> init ''stamp'' (5764607523034235 / 576460752303423488) 3 (Date 2025 1 1) =
     Inr ([InitHeader, InitName ''stamp'', InitCost (5764607523034235 / 576460752303423488),
           InitPeriod 3, InitMonthly 0, JournalHeader,
           DebitAsset ''stamp'' (5764607523034235 / 576460752303423488),
           CreditCash (5764607523034235 / 576460752303423488), Rule],
          \<lparr> name = ''stamp'', total_cost = 5764607523034235 / 576460752303423488,
            amortization_period_months = 3, start_date = Date 2025 1 1,
            book_value = 5764607523034235 / 576460752303423488,
            monthly_amortization_amount = 0, amortization_history = [] \<rparr>)
   \<and> monthly_amortization_amount
       \<lparr> name = ''stamp'', total_cost = 5764607523034235 / 576460752303423488,
         amortization_period_months = 3, start_date = Date 2025 1 1,
         book_value = 5764607523034235 / 576460752303423488,
         monthly_amortization_amount = 0, amortization_history = [] \<rparr> = 0
   \<and> book_value (amortize_all [Date 2025 1 1, Date 2025 2 1, Date 2025 3 1, Date 2025 4 1]
       \<lparr> name = ''stamp'', total_cost = 5764607523034235 / 576460752303423488,
         amortization_period_months = 3, start_date = Date 2025 1 1,
         book_value = 5764607523034235 / 576460752303423488,
         monthly_amortization_amount = 0, amortization_history = [] \<rparr>)
       = 5764607523034235 / 576460752303423488
   \<and> length (amortization_history
       (amortize_all [Date 2025 1 1, Date 2025 2 1, Date 2025 3 1, Date 2025 4 1]
       \<lparr> name = ''stamp'', total_cost = 5764607523034235 / 576460752303423488,
         amortization_period_months = 3, start_date = Date 2025 1 1,
         book_value = 5764607523034235 / 576460752303423488,
         monthly_amortization_amount = 0, amortization_history = [] \<rparr>)) = 4"
proof -
  let ?c = "5764607523034235 / 576460752303423488 :: rat"
  let ?a = "\<lparr> name = ''stamp'', total_cost = ?c, amortization_period_months = 3,
            start_date = Date 2025 1 1, book_value = ?c,
            monthly_amortization_amount = 0, amortization_history = [] \<rparr>"
  let ?ds = "[Date 2025 1 1, Date 2025 2 1, Date 2025 3 1, Date 2025 4 1]"
  have p: "0 < ?c" by simp
  have m: "monthly_amortization_amount ?a = 0" by simp
  from zero_monthly_amount_never_terminates [OF is_float_cent p init_cent_3 m, of ?ds]
  have "book_value (amortize_all ?ds ?a) = ?c"
    and "length (amortization_history (amortize_all ?ds ?a)) = 4"
    by simp_all
  with is_float_cent p init_cent_3 m show ?thesis by blast
qed

section \<open>Conservation of the cost\<close>

lemma amortize_step_val:
  assumes "book_value s = b" "0 < b" "monthly_amortization_amount s = m"
    and "py_min b m = a" "fl (b - a) = b'"
  shows "book_value (snd (amortize_for_period d s)) = b'"
    and "monthly_amortization_amount (snd (amortize_for_period d s)) = m"
    and "map amortized_amount (amortization_history (snd (amortize_for_period d s)))
           = map amortized_amount (amortization_history s) @ [a]"
    and "total_cost (snd (amortize_for_period d s)) = total_cost s"
proof -
  have p: "0 < book_value s" using assms(1,2) by simp
  show "book_value (snd (amortize_for_period d s)) = b'"
    using assms by (simp add: amortize_for_period_active [OF p])
  show "monthly_amortization_amount (snd (amortize_for_period d s)) = m"
    using assms(3) by (simp add: amortize_for_period_frame)
  show "map amortized_amount (amortization_history (snd (amortize_for_period d s)))
           = map amortized_amount (amortization_history s) @ [a]"
    using assms by (simp add: amortize_for_period_active [OF p])
  show "total_cost (snd (amortize_for_period d s)) = total_cost s"
    by (simp add: amortize_for_period_frame)
qed

lemma amortized_sum_step:
  "0 < book_value s \<Longrightarrow>
     amortized_sum (snd (amortize_for_period d s))
       = amortized_sum s + py_min (book_value s) (monthly_amortization_amount s)"
  by (simp add: amortized_sum_def amortize_for_period_active)

lemma exact_run_conserves:
  "exact_run ds s \<Longrightarrow>
     amortized_sum (amortize_all ds s) + book_value (amortize_all ds s)
       = amortized_sum s + book_value s"
proof (induction ds arbitrary: s)
  case Nil
  then show ?case by simp
next
  case (Cons d ds)
  let ?s = "snd (amortize_for_period d s)"
  from Cons.prems have r: "exact_run ds ?s" by simp
  show ?case
  proof (cases "book_value s \<le> 0")
    case True
    then have "?s = s" by (simp add: amortize_for_period_done)
    with Cons.IH [OF r] show ?thesis by simp
  next
    case False
    then have p: "0 < book_value s" by simp
    let ?a = "py_min (book_value s) (monthly_amortization_amount s)"
    from Cons.prems False have "fl (book_value s - ?a) = book_value s - ?a"
      by (simp add: float_sub_def)
    then have "book_value ?s = book_value s - ?a"
      by (simp add: amortize_for_period_active [OF p])
    with amortized_sum_step [OF p, of d] Cons.IH [OF r] show ?thesis by simp
  qed
qed

lemma one20_quot: "fl (1 / 20) = 3602879701896397 / 72057594037927936"
  by (rule trans [OF fl_val [where e = "- 5" and n = 7205759403792794]]) simp_all

lemma one20_round: "round_half_even (3602879701896397 / 72057594037927936 * 100) = 5"
  by (rule round_half_even_near) simp

lemma one20_cents: "fl (5 / 100) = 3602879701896397 / 72057594037927936"
  by (rule trans [OF fl_val [where e = "- 5" and n = 7205759403792794]]) simp_all

lemma one20_monthly: "round2 (3602879701896397 / 72057594037927936) = 3602879701896397 / 72057594037927936"
  by (simp only: round2_def one20_round of_int_numeral one20_cents)

lemma one20_fix: "fl (3602879701896397 / 72057594037927936) = 3602879701896397 / 72057594037927936"
  by (rule trans [OF fl_val [where e = "- 5" and n = 7205759403792794]]) simp_all

lemma one20_sub1: "fl (1 - 3602879701896397 / 72057594037927936) = 4278419646001971 / 4503599627370496"
  by (rule trans [OF fl_val [where e = "- 1" and n = 8556839292003942]]) simp_all

lemma one20_sub2: "fl (4278419646001971 / 4503599627370496 - 3602879701896397 / 72057594037927936) = 2026619832316723 / 2251799813685248"
  by (rule trans [OF fl_val [where e = "- 1" and n = 8106479329266892]]) simp_all

lemma init_one_20:
  "init ''toner'' 1 20 (Date 2025 1 1) =
     Inr ([InitHeader, InitName ''toner'', InitCost 1, InitPeriod 20, InitMonthly (3602879701896397 / 72057594037927936),
           JournalHeader, DebitAsset ''toner'' 1, CreditCash 1, Rule],
          \<lparr> name = ''toner'', total_cost = 1, amortization_period_months = 20,
            start_date = Date 2025 1 1, book_value = 1,
            monthly_amortization_amount = 3602879701896397 / 72057594037927936, amortization_history = [] \<rparr>)"
proof (rule init_val [where mf = 20 and q = "3602879701896397 / 72057594037927936"])
  show "fl (1 / 20) = 3602879701896397 / 72057594037927936" by (rule one20_quot)
  show "round2 (3602879701896397 / 72057594037927936) = 3602879701896397 / 72057594037927936" by (rule one20_monthly)
qed (simp_all add: fl_numeral)

lemma one20_run:
  assumes "book_value s = 1" "monthly_amortization_amount s = 3602879701896397 / 72057594037927936"
    and "amortization_history s = []"
  shows "book_value (amortize_all [d1, d2] s) = 2026619832316723 / 2251799813685248"
    and "map amortized_amount (amortization_history (amortize_all [d1, d2] s)) = [3602879701896397 / 72057594037927936, 3602879701896397 / 72057594037927936]"
    and "total_cost (amortize_all [d1, d2] s) = total_cost s"
proof -
  let ?s1 = "snd (amortize_for_period d1 s)"
  let ?s2 = "snd (amortize_for_period d2 ?s1)"
  have m1: "py_min 1 (3602879701896397 / 72057594037927936) = 3602879701896397 / 72057594037927936" by (simp add: py_min_def)
  have p1: "(0::rat) < 1" by simp
  note s1 = amortize_step_val [OF assms(1) p1 assms(2) m1 one20_sub1, of d1]
  have m2: "py_min (4278419646001971 / 4503599627370496) (3602879701896397 / 72057594037927936) = 3602879701896397 / 72057594037927936" by (simp add: py_min_def)
  have p2: "(0::rat) < 4278419646001971 / 4503599627370496" by simp
  note s2 = amortize_step_val [OF s1(1) p2 s1(2) m2 one20_sub2, of d2]
  show "book_value (amortize_all [d1, d2] s) = 2026619832316723 / 2251799813685248" using s2(1) by simp
  show "map amortized_amount (amortization_history (amortize_all [d1, d2] s)) = [3602879701896397 / 72057594037927936, 3602879701896397 / 72057594037927936]"
    using s2(3) s1(3) assms(3) by simp
  show "total_cost (amortize_all [d1, d2] s) = total_cost s"
    by (simp add: amortize_for_period_frame)
qed

lemma one20_sum: "fl (3602879701896397 / 72057594037927936 + 3602879701896397 / 72057594037927936) = 3602879701896397 / 36028797018963968"
  by (rule trans [OF fl_val [where e = "- 4" and n = 7205759403792794]]) simp_all

lemma one20_total: "fl (3602879701896397 / 36028797018963968 + 2026619832316723 / 2251799813685248) = 9007199254740991 / 9007199254740992"
  by (rule trans [OF fl_val [where e = "- 1" and n = 9007199254740991]]) simp_all

text \<open>
  C1 as stated fails on floats. For \<^verbatim>\<open>total_cost = 1.0\<close> over 20 months the monthly amount is
  the float \<^verbatim>\<open>0.05\<close>; after two calls the book value is \<^verbatim>\<open>0.8999999999999999\<close>, and the two
  amounts plus the book value are not \<open>1\<close>, neither added as exact numbers nor added as
  Python adds floats (which gives \<^verbatim>\<open>0.9999999999999999\<close>).
\<close>

theorem conservation_counterexample:
  "init ''toner'' 1 20 (Date 2025 1 1) =
     Inr ([InitHeader, InitName ''toner'', InitCost 1, InitPeriod 20, InitMonthly (3602879701896397 / 72057594037927936),
           JournalHeader, DebitAsset ''toner'' 1, CreditCash 1, Rule],
          \<lparr> name = ''toner'', total_cost = 1, amortization_period_months = 20,
            start_date = Date 2025 1 1, book_value = 1,
            monthly_amortization_amount = 3602879701896397 / 72057594037927936, amortization_history = [] \<rparr>)
   \<and> amortized_sum (amortize_all [Date 2025 1 1, Date 2025 2 1]
         \<lparr> name = ''toner'', total_cost = 1, amortization_period_months = 20,
            start_date = Date 2025 1 1, book_value = 1,
            monthly_amortization_amount = 3602879701896397 / 72057594037927936, amortization_history = [] \<rparr>)
       + book_value (amortize_all [Date 2025 1 1, Date 2025 2 1]
         \<lparr> name = ''toner'', total_cost = 1, amortization_period_months = 20,
            start_date = Date 2025 1 1, book_value = 1,
            monthly_amortization_amount = 3602879701896397 / 72057594037927936, amortization_history = [] \<rparr>)
       \<noteq> total_cost (amortize_all [Date 2025 1 1, Date 2025 2 1]
         \<lparr> name = ''toner'', total_cost = 1, amortization_period_months = 20,
            start_date = Date 2025 1 1, book_value = 1,
            monthly_amortization_amount = 3602879701896397 / 72057594037927936, amortization_history = [] \<rparr>)
   \<and> fl (total_amortized (amortize_all [Date 2025 1 1, Date 2025 2 1]
         \<lparr> name = ''toner'', total_cost = 1, amortization_period_months = 20,
            start_date = Date 2025 1 1, book_value = 1,
            monthly_amortization_amount = 3602879701896397 / 72057594037927936, amortization_history = [] \<rparr>)
       + book_value (amortize_all [Date 2025 1 1, Date 2025 2 1]
         \<lparr> name = ''toner'', total_cost = 1, amortization_period_months = 20,
            start_date = Date 2025 1 1, book_value = 1,
            monthly_amortization_amount = 3602879701896397 / 72057594037927936, amortization_history = [] \<rparr>))
       \<noteq> total_cost (amortize_all [Date 2025 1 1, Date 2025 2 1]
         \<lparr> name = ''toner'', total_cost = 1, amortization_period_months = 20,
            start_date = Date 2025 1 1, book_value = 1,
            monthly_amortization_amount = 3602879701896397 / 72057594037927936, amortization_history = [] \<rparr>)"
proof -
  let ?a = "\<lparr> name = ''toner'', total_cost = 1, amortization_period_months = 20,
            start_date = Date 2025 1 1, book_value = 1,
            monthly_amortization_amount = 3602879701896397 / 72057594037927936, amortization_history = [] \<rparr>"
  let ?r = "amortize_all [Date 2025 1 1, Date 2025 2 1] ?a"
  have b: "book_value ?r = 2026619832316723 / 2251799813685248"
    and h: "map amortized_amount (amortization_history ?r) = [3602879701896397 / 72057594037927936, 3602879701896397 / 72057594037927936]"
    and t: "total_cost ?r = 1"
    using one20_run [of ?a "Date 2025 1 1" "Date 2025 2 1"] by simp_all
  have "amortized_sum ?r = 3602879701896397 / 72057594037927936 + 3602879701896397 / 72057594037927936"
    by (simp add: amortized_sum_def h del: amortize_all.simps)
  then have e: "amortized_sum ?r + book_value ?r \<noteq> total_cost ?r"
    by (simp add: b t del: amortize_all.simps)
  have "total_amortized ?r = foldl (\<lambda>acc x. fl (acc + x)) 0 (map amortized_amount (amortization_history ?r))"
    by (simp only: total_amortized_def foldl_map)
  also have "\<dots> = fl (fl (0 + 3602879701896397 / 72057594037927936) + 3602879701896397 / 72057594037927936)" by (simp only: h foldl.simps)
  also have "fl (0 + 3602879701896397 / 72057594037927936) = 3602879701896397 / 72057594037927936" by (simp only: add_0 one20_fix)
  finally have "total_amortized ?r = 3602879701896397 / 36028797018963968" by (simp only: one20_sum)
  then have "fl (total_amortized ?r + book_value ?r) = 9007199254740991 / 9007199254740992" by (simp only: b one20_total)
  then have f: "fl (total_amortized ?r + book_value ?r) \<noteq> total_cost ?r"
    by (simp add: t del: amortize_all.simps)
  from init_one_20 e f show ?thesis by blast
qed

lemma exact_run_100_4:
  "exact_run [Date 2025 1 1, Date 2025 2 1, Date 2025 3 1, Date 2025 4 1, Date 2025 5 1]
     \<lparr> name = ''fit-out'', total_cost = 100, amortization_period_months = 4,
       start_date = Date 2025 1 1, book_value = 100, monthly_amortization_amount = 25,
       amortization_history = [] \<rparr>"
  by (simp add: amortize_for_period_def get_status_def float_sub_def py_min_def fl_numeral
        fl_zero Let_def)

text \<open>
  C1, amended. For every constructed expense and every finite sequence of calls of
  \<^verbatim>\<open>amortize_for_period\<close> in which no subtraction \<^verbatim>\<open>book_value - amount_to_amortize\<close> is
  rounded, the amounts of the history, added as exact numbers, plus the book value equal
  \<open>total_cost\<close>.
\<close>

theorem conservation_of_exact_runs:
  "init nm cost months start = Inr (out, a) \<Longrightarrow> exact_run ds a \<Longrightarrow>
     amortized_sum (amortize_all ds a) + book_value (amortize_all ds a)
       = total_cost (amortize_all ds a)"
proof -
  assume i: "init nm cost months start = Inr (out, a)" and e: "exact_run ds a"
  have "amortized_sum a = 0" "book_value a = cost" "total_cost a = cost"
    by (simp_all add: init_Inr(4) [OF i] amortized_sum_def)
  with exact_run_conserves [OF e] show ?thesis by (simp add: amortize_all_frame)
qed

theorem conservation_of_exact_runs_witness:
  "init ''fit-out'' 100 4 (Date 2025 1 1) =
     Inr ([InitHeader, InitName ''fit-out'', InitCost 100, InitPeriod 4, InitMonthly 25,
           JournalHeader, DebitAsset ''fit-out'' 100, CreditCash 100, Rule],
          \<lparr> name = ''fit-out'', total_cost = 100, amortization_period_months = 4,
            start_date = Date 2025 1 1, book_value = 100, monthly_amortization_amount = 25,
            amortization_history = [] \<rparr>)
   \<and> exact_run [Date 2025 1 1, Date 2025 2 1, Date 2025 3 1, Date 2025 4 1, Date 2025 5 1]
       \<lparr> name = ''fit-out'', total_cost = 100, amortization_period_months = 4,
         start_date = Date 2025 1 1, book_value = 100, monthly_amortization_amount = 25,
         amortization_history = [] \<rparr>
   \<and> amortized_sum (amortize_all
         [Date 2025 1 1, Date 2025 2 1, Date 2025 3 1, Date 2025 4 1, Date 2025 5 1]
         \<lparr> name = ''fit-out'', total_cost = 100, amortization_period_months = 4,
           start_date = Date 2025 1 1, book_value = 100, monthly_amortization_amount = 25,
           amortization_history = [] \<rparr>)
       + book_value (amortize_all
         [Date 2025 1 1, Date 2025 2 1, Date 2025 3 1, Date 2025 4 1, Date 2025 5 1]
         \<lparr> name = ''fit-out'', total_cost = 100, amortization_period_months = 4,
           start_date = Date 2025 1 1, book_value = 100, monthly_amortization_amount = 25,
           amortization_history = [] \<rparr>) = 100"
proof -
  let ?a = "\<lparr> name = ''fit-out'', total_cost = 100, amortization_period_months = 4,
            start_date = Date 2025 1 1, book_value = 100, monthly_amortization_amount = 25,
            amortization_history = [] \<rparr>"
  let ?ds = "[Date 2025 1 1, Date 2025 2 1, Date 2025 3 1, Date 2025 4 1, Date 2025 5 1]"
  from conservation_of_exact_runs [OF init_100_4 exact_run_100_4]
  have "amortized_sum (amortize_all ?ds ?a) + book_value (amortize_all ?ds ?a) = 100"
    by (simp only: amortize_all_frame expense.simps)
  with init_100_4 exact_run_100_4 show ?thesis by blast
qed

section \<open>The number of calls\<close>

lemma round_half_even_tie:
  assumes "y = of_int k + 1 / 2"
  shows "round_half_even y = (if even k then k else k + 1)"
proof -
  have "\<lfloor>y\<rfloor> = k" unfolding assms by (rule floor_unique) simp_all
  then show ?thesis by (simp add: round_half_even_def Let_def assms)
qed

lemma fl_val_tie:
  assumes "2 powi e \<le> \<bar>x\<bar>" "\<bar>x\<bar> < 2 powi (e + 1)" "- 1022 \<le> e"
    and "x / 2 powi (e - 52) = of_int k + 1 / 2" "n = (if even k then k else k + 1)"
  shows "fl x = of_int n * 2 powi (e - 52)"
proof -
  have m: "max e (- 1022) = e" using assms(3) by simp
  from round_half_even_tie [OF assms(4)] assms(5)
  have "round_half_even (x / 2 powi (e - 52)) = n" by simp
  then show ?thesis by (simp add: fl_eq [OF assms(1,2)] m)
qed

lemma round_half_even_nonpos: "x \<le> 0 \<Longrightarrow> round_half_even x \<le> 0"
  using round_half_even_mono [of x 0] round_half_even_of_int [of 0] by simp

lemma fl_nonpos: "x \<le> 0 \<Longrightarrow> fl x \<le> 0"
proof -
  assume "x \<le> 0"
  then have "x / ulp x \<le> 0" using ulp_pos [of x] by (simp add: divide_le_0_iff)
  then have "round_half_even (x / ulp x) \<le> 0" by (rule round_half_even_nonpos)
  then have "(of_int (round_half_even (x / ulp x)) :: rat) * ulp x \<le> 0"
    using ulp_pos [of x] by (simp add: mult_le_0_iff)
  then show ?thesis by (simp add: fl_def)
qed

lemma round2_nonpos: "x \<le> 0 \<Longrightarrow> round2 x \<le> 0"
proof -
  assume "x \<le> 0"
  then have "x * 100 \<le> 0" by simp
  then have "round_half_even (x * 100) \<le> 0" by (rule round_half_even_nonpos)
  then have "(of_int (round_half_even (x * 100)) :: rat) / 100 \<le> 0" by simp
  then show ?thesis unfolding round2_def by (rule fl_nonpos)
qed

lemma init_monthly_pos:
  assumes "init nm cost months start = Inr (out, a)" "0 < monthly_amortization_amount a"
  shows "0 < cost"
proof (rule ccontr)
  assume "\<not> 0 < cost"
  then have c: "cost \<le> 0" by simp
  from init_Inr(1) [OF assms(1)] have "0 \<le> fl (of_int months)" by (intro fl_nonneg) simp
  with c have "cost / fl (of_int months) \<le> 0" by (simp add: divide_le_0_iff)
  then have "round2 (fl (cost / fl (of_int months))) \<le> 0" by (intro round2_nonpos fl_nonpos)
  with assms(2) show False by (simp add: init_Inr(4) [OF assms(1)])
qed

lemma exact_run_reaches_zero:
  assumes "exact_run ds s" "0 \<le> book_value s" "0 < monthly_amortization_amount s"
    and "book_value s \<le> of_nat (length ds) * monthly_amortization_amount s"
  shows "book_value (amortize_all ds s) = 0"
  using assms
proof (induction ds arbitrary: s)
  case Nil
  then show ?case by simp
next
  case (Cons d ds)
  let ?s = "snd (amortize_for_period d s)"
  let ?m = "monthly_amortization_amount s"
  from Cons.prems(1) have r: "exact_run ds ?s" by simp
  have ms: "monthly_amortization_amount ?s = ?m" by (simp add: amortize_for_period_frame)
  show ?case
  proof (cases "book_value s \<le> 0")
    case True
    with Cons.prems(2) have "book_value s = 0" by simp
    moreover have "amortize_all (d # ds) s = s" using True by (rule amortize_all_done)
    ultimately show ?thesis by simp
  next
    case False
    then have p: "0 < book_value s" by simp
    let ?a = "py_min (book_value s) ?m"
    from Cons.prems(1) False have "fl (book_value s - ?a) = book_value s - ?a"
      by (simp add: float_sub_def)
    then have b: "book_value ?s = book_value s - ?a"
      by (simp add: amortize_for_period_active [OF p])
    have nn: "0 \<le> book_value ?s" using p Cons.prems(3) by (simp add: b py_min_def)
    have "book_value s \<le> of_nat (length ds) * ?m + ?m"
      using Cons.prems(4) by (simp add: algebra_simps)
    then have le: "book_value ?s \<le> of_nat (length ds) * monthly_amortization_amount ?s"
      using Cons.prems(3) by (simp add: b ms py_min_def)
    from Cons.IH [OF r nn _ le] Cons.prems(3) show ?thesis by (simp add: ms)
  qed
qed

lemma one10_quot: "fl (1 / 10) = 3602879701896397 / 36028797018963968"
  by (rule trans [OF fl_val [where e = "- 4" and n = 7205759403792794]]) simp_all

lemma one10_round: "round_half_even (3602879701896397 / 36028797018963968 * 100) = 10"
  by (rule round_half_even_near) simp

lemma one10_cents: "fl (10 / 100) = 3602879701896397 / 36028797018963968"
  by (rule trans [OF fl_val [where e = "- 4" and n = 7205759403792794]]) simp_all

lemma one10_monthly: "round2 (3602879701896397 / 36028797018963968) = 3602879701896397 / 36028797018963968"
  by (simp only: round2_def one10_round of_int_numeral one10_cents)

lemma one10_sub1: "fl (1 - 3602879701896397 / 36028797018963968) = 8106479329266893 / 9007199254740992"
  by (rule trans [OF fl_val [where e = "- 1" and n = 8106479329266893]]) simp_all

lemma one10_sub2: "fl (8106479329266893 / 9007199254740992 - 3602879701896397 / 36028797018963968) = 3602879701896397 / 4503599627370496"
  by (rule trans [OF fl_val [where e = "- 1" and n = 7205759403792794]]) simp_all

lemma one10_sub3: "fl (3602879701896397 / 4503599627370496 - 3602879701896397 / 36028797018963968) = 6305039478318695 / 9007199254740992"
  by (rule trans [OF fl_val [where e = "- 1" and n = 6305039478318695]]) simp_all

lemma one10_sub4: "fl (6305039478318695 / 9007199254740992 - 3602879701896397 / 36028797018963968) = 1351079888211149 / 2251799813685248"
  by (rule trans [OF fl_val [where e = "- 1" and n = 5404319552844596]]) simp_all

lemma one10_sub5: "fl (1351079888211149 / 2251799813685248 - 3602879701896397 / 36028797018963968) = 4503599627370497 / 9007199254740992"
  by (rule trans [OF fl_val [where e = "- 1" and n = 4503599627370497]]) simp_all

lemma one10_sub6: "fl (4503599627370497 / 9007199254740992 - 3602879701896397 / 36028797018963968) = 1801439850948199 / 4503599627370496"
  by (rule trans [OF fl_val_tie [where e = "- 2" and k = 7205759403792795 and n = 7205759403792796]]) simp_all

lemma one10_sub7: "fl (1801439850948199 / 4503599627370496 - 3602879701896397 / 36028797018963968) = 2702159776422299 / 9007199254740992"
  by (rule trans [OF fl_val_tie [where e = "- 2" and k = 5404319552844597 and n = 5404319552844598]]) simp_all

lemma one10_sub8: "fl (2702159776422299 / 9007199254740992 - 3602879701896397 / 36028797018963968) = 7205759403792799 / 36028797018963968"
  by (rule trans [OF fl_val [where e = "- 3" and n = 7205759403792799]]) simp_all

lemma one10_sub9: "fl (7205759403792799 / 36028797018963968 - 3602879701896397 / 36028797018963968) = 1801439850948201 / 18014398509481984"
  by (rule trans [OF fl_val [where e = "- 4" and n = 7205759403792804]]) simp_all

lemma one10_sub10: "fl (1801439850948201 / 18014398509481984 - 3602879701896397 / 36028797018963968) = 5 / 36028797018963968"
  by (rule trans [OF fl_val [where e = "- 53" and n = 5629499534213120]]) simp_all

lemma one10_run:
  assumes "book_value s = 1" "monthly_amortization_amount s = 3602879701896397 / 36028797018963968"
  shows "book_value (amortize_all [d1, d2, d3, d4, d5, d6, d7, d8, d9, d10] s) = 5 / 36028797018963968"
proof -
  have m1: "py_min 1 (3602879701896397 / 36028797018963968) = 3602879701896397 / 36028797018963968" by (simp add: py_min_def)
  have p1: "(0::rat) < 1" by simp
  note s1 = amortize_step_val [OF assms(1) p1 assms(2) m1 one10_sub1, of d1]
  have m2: "py_min (8106479329266893 / 9007199254740992) (3602879701896397 / 36028797018963968) = 3602879701896397 / 36028797018963968" by (simp add: py_min_def)
  have p2: "(0::rat) < 8106479329266893 / 9007199254740992" by simp
  note s2 = amortize_step_val [OF s1(1) p2 s1(2) m2 one10_sub2, of d2]
  have m3: "py_min (3602879701896397 / 4503599627370496) (3602879701896397 / 36028797018963968) = 3602879701896397 / 36028797018963968" by (simp add: py_min_def)
  have p3: "(0::rat) < 3602879701896397 / 4503599627370496" by simp
  note s3 = amortize_step_val [OF s2(1) p3 s2(2) m3 one10_sub3, of d3]
  have m4: "py_min (6305039478318695 / 9007199254740992) (3602879701896397 / 36028797018963968) = 3602879701896397 / 36028797018963968" by (simp add: py_min_def)
  have p4: "(0::rat) < 6305039478318695 / 9007199254740992" by simp
  note s4 = amortize_step_val [OF s3(1) p4 s3(2) m4 one10_sub4, of d4]
  have m5: "py_min (1351079888211149 / 2251799813685248) (3602879701896397 / 36028797018963968) = 3602879701896397 / 36028797018963968" by (simp add: py_min_def)
  have p5: "(0::rat) < 1351079888211149 / 2251799813685248" by simp
  note s5 = amortize_step_val [OF s4(1) p5 s4(2) m5 one10_sub5, of d5]
  have m6: "py_min (4503599627370497 / 9007199254740992) (3602879701896397 / 36028797018963968) = 3602879701896397 / 36028797018963968" by (simp add: py_min_def)
  have p6: "(0::rat) < 4503599627370497 / 9007199254740992" by simp
  note s6 = amortize_step_val [OF s5(1) p6 s5(2) m6 one10_sub6, of d6]
  have m7: "py_min (1801439850948199 / 4503599627370496) (3602879701896397 / 36028797018963968) = 3602879701896397 / 36028797018963968" by (simp add: py_min_def)
  have p7: "(0::rat) < 1801439850948199 / 4503599627370496" by simp
  note s7 = amortize_step_val [OF s6(1) p7 s6(2) m7 one10_sub7, of d7]
  have m8: "py_min (2702159776422299 / 9007199254740992) (3602879701896397 / 36028797018963968) = 3602879701896397 / 36028797018963968" by (simp add: py_min_def)
  have p8: "(0::rat) < 2702159776422299 / 9007199254740992" by simp
  note s8 = amortize_step_val [OF s7(1) p8 s7(2) m8 one10_sub8, of d8]
  have m9: "py_min (7205759403792799 / 36028797018963968) (3602879701896397 / 36028797018963968) = 3602879701896397 / 36028797018963968" by (simp add: py_min_def)
  have p9: "(0::rat) < 7205759403792799 / 36028797018963968" by simp
  note s9 = amortize_step_val [OF s8(1) p9 s8(2) m9 one10_sub9, of d9]
  have m10: "py_min (1801439850948201 / 18014398509481984) (3602879701896397 / 36028797018963968) = 3602879701896397 / 36028797018963968" by (simp add: py_min_def)
  have p10: "(0::rat) < 1801439850948201 / 18014398509481984" by simp
  note s10 = amortize_step_val [OF s9(1) p10 s9(2) m10 one10_sub10, of d10]
  show ?thesis using s10(1) by simp
qed

lemma init_one_10:
  "init ''ink'' 1 10 (Date 2025 1 1) =
     Inr ([InitHeader, InitName ''ink'', InitCost 1, InitPeriod 10, InitMonthly (3602879701896397 / 36028797018963968),
           JournalHeader, DebitAsset ''ink'' 1, CreditCash 1, Rule],
          \<lparr> name = ''ink'', total_cost = 1, amortization_period_months = 10,
            start_date = Date 2025 1 1, book_value = 1,
            monthly_amortization_amount = 3602879701896397 / 36028797018963968, amortization_history = [] \<rparr>)"
proof (rule init_val [where mf = 10 and q = "3602879701896397 / 36028797018963968"])
  show "fl (1 / 10) = 3602879701896397 / 36028797018963968" by (rule one10_quot)
  show "round2 (3602879701896397 / 36028797018963968) = 3602879701896397 / 36028797018963968" by (rule one10_monthly)
qed (simp_all add: fl_numeral)

text \<open>
  C3 as stated fails on floats. For \<^verbatim>\<open>total_cost = 1.0\<close> over 10 months the monthly amount is
  the float \<^verbatim>\<open>0.1\<close> and \<open>\<lceil>total_cost / monthly amount\<rceil> = 10\<close>, but the rounded subtractions
  leave \<^verbatim>\<open>1.3877787807814457e-16\<close> after the tenth call: an eleventh call is needed.
\<close>

theorem termination_bound_counterexample:
  "init ''ink'' 1 10 (Date 2025 1 1) =
     Inr ([InitHeader, InitName ''ink'', InitCost 1, InitPeriod 10, InitMonthly (3602879701896397 / 36028797018963968),
           JournalHeader, DebitAsset ''ink'' 1, CreditCash 1, Rule],
          \<lparr> name = ''ink'', total_cost = 1, amortization_period_months = 10,
            start_date = Date 2025 1 1, book_value = 1,
            monthly_amortization_amount = 3602879701896397 / 36028797018963968, amortization_history = [] \<rparr>)
   \<and> 0 < monthly_amortization_amount
         \<lparr> name = ''ink'', total_cost = 1, amortization_period_months = 10,
            start_date = Date 2025 1 1, book_value = 1,
            monthly_amortization_amount = 3602879701896397 / 36028797018963968, amortization_history = [] \<rparr>
   \<and> spec_calls_needed
         \<lparr> name = ''ink'', total_cost = 1, amortization_period_months = 10,
            start_date = Date 2025 1 1, book_value = 1,
            monthly_amortization_amount = 3602879701896397 / 36028797018963968, amortization_history = [] \<rparr> = 10
   \<and> book_value (amortize_all
         [Date 2025 1 1, Date 2025 2 1, Date 2025 3 1, Date 2025 4 1, Date 2025 5 1,
          Date 2025 6 1, Date 2025 7 1, Date 2025 8 1, Date 2025 9 1, Date 2025 10 1]
         \<lparr> name = ''ink'', total_cost = 1, amortization_period_months = 10,
            start_date = Date 2025 1 1, book_value = 1,
            monthly_amortization_amount = 3602879701896397 / 36028797018963968, amortization_history = [] \<rparr>) = 5 / 36028797018963968
   \<and> (5 / 36028797018963968 :: rat) \<noteq> 0"
proof -
  let ?a = "\<lparr> name = ''ink'', total_cost = 1, amortization_period_months = 10,
            start_date = Date 2025 1 1, book_value = 1,
            monthly_amortization_amount = 3602879701896397 / 36028797018963968, amortization_history = [] \<rparr>"
  have m: "0 < monthly_amortization_amount ?a" by simp
  have "\<lceil>1 / (3602879701896397 / 36028797018963968 :: rat)\<rceil> = 10" by (rule ceiling_unique) simp_all
  then have c: "spec_calls_needed ?a = 10" by (simp add: spec_calls_needed_def)
  have b: "book_value (amortize_all
         [Date 2025 1 1, Date 2025 2 1, Date 2025 3 1, Date 2025 4 1, Date 2025 5 1,
          Date 2025 6 1, Date 2025 7 1, Date 2025 8 1, Date 2025 9 1, Date 2025 10 1] ?a) = 5 / 36028797018963968"
    by (rule one10_run) simp_all
  have n: "(5 / 36028797018963968 :: rat) \<noteq> 0" by simp
  from init_one_10 m c b n show ?thesis by blast
qed

lemma calls_needed_100_4:
  "spec_calls_needed
     \<lparr> name = ''fit-out'', total_cost = 100, amortization_period_months = 4,
       start_date = Date 2025 1 1, book_value = 100, monthly_amortization_amount = 25,
       amortization_history = [] \<rparr> = 4"
  by (simp add: spec_calls_needed_def)

text \<open>
  C3, amended. For every constructed expense with a positive monthly amount, after a
  sequence of at least \<open>\<lceil>total_cost / monthly amount\<rceil>\<close> calls of \<^verbatim>\<open>amortize_for_period\<close> in
  which no subtraction is rounded, the book value is exactly 0, and any further calls
  change nothing: the object, and so its history, stays as it is.
\<close>

theorem exact_runs_terminate:
  assumes "init nm cost months start = Inr (out, a)" "0 < monthly_amortization_amount a"
    and "exact_run ds a" "spec_calls_needed a \<le> int (length ds)"
  shows "book_value (amortize_all ds a) = 0
       \<and> amortize_all (ds @ ds') a = amortize_all ds a
       \<and> amortization_history (amortize_all (ds @ ds') a) = amortization_history (amortize_all ds a)"
proof -
  let ?m = "monthly_amortization_amount a"
  have a: "book_value a = cost" "total_cost a = cost" by (simp_all add: init_Inr(4) [OF assms(1)])
  have c: "0 < cost" using assms(1,2) by (rule init_monthly_pos)
  have "cost / ?m \<le> of_int \<lceil>cost / ?m\<rceil>" by (rule le_of_int_ceiling)
  also have "\<dots> \<le> of_int (int (length ds))"
    using assms(4) by (simp only: of_int_le_iff spec_calls_needed_def a)
  finally have "cost \<le> of_nat (length ds) * ?m" using assms(2) by (simp add: pos_divide_le_eq)
  then have le: "book_value a \<le> of_nat (length ds) * ?m" by (simp add: a)
  have nn: "0 \<le> book_value a" using c by (simp add: a)
  have z: "book_value (amortize_all ds a) = 0"
    using assms(3) nn assms(2) le by (rule exact_run_reaches_zero)
  then have "amortize_all ds' (amortize_all ds a) = amortize_all ds a"
    by (intro amortize_all_done) simp
  then have "amortize_all (ds @ ds') a = amortize_all ds a" by (simp add: amortize_all_append)
  with z show ?thesis by simp
qed

theorem exact_runs_terminate_witness:
  "init ''fit-out'' 100 4 (Date 2025 1 1) =
     Inr ([InitHeader, InitName ''fit-out'', InitCost 100, InitPeriod 4, InitMonthly 25,
           JournalHeader, DebitAsset ''fit-out'' 100, CreditCash 100, Rule],
          \<lparr> name = ''fit-out'', total_cost = 100, amortization_period_months = 4,
            start_date = Date 2025 1 1, book_value = 100, monthly_amortization_amount = 25,
            amortization_history = [] \<rparr>)
   \<and> 0 < monthly_amortization_amount
       \<lparr> name = ''fit-out'', total_cost = 100, amortization_period_months = 4,
         start_date = Date 2025 1 1, book_value = 100, monthly_amortization_amount = 25,
         amortization_history = [] \<rparr>
   \<and> exact_run [Date 2025 1 1, Date 2025 2 1, Date 2025 3 1, Date 2025 4 1, Date 2025 5 1]
       \<lparr> name = ''fit-out'', total_cost = 100, amortization_period_months = 4,
         start_date = Date 2025 1 1, book_value = 100, monthly_amortization_amount = 25,
         amortization_history = [] \<rparr>
   \<and> spec_calls_needed
       \<lparr> name = ''fit-out'', total_cost = 100, amortization_period_months = 4,
         start_date = Date 2025 1 1, book_value = 100, monthly_amortization_amount = 25,
         amortization_history = [] \<rparr>
       \<le> int (length [Date 2025 1 1, Date 2025 2 1, Date 2025 3 1, Date 2025 4 1, Date 2025 5 1])
   \<and> book_value (amortize_all
         [Date 2025 1 1, Date 2025 2 1, Date 2025 3 1, Date 2025 4 1, Date 2025 5 1]
         \<lparr> name = ''fit-out'', total_cost = 100, amortization_period_months = 4,
           start_date = Date 2025 1 1, book_value = 100, monthly_amortization_amount = 25,
           amortization_history = [] \<rparr>) = 0"
proof -
  let ?a = "\<lparr> name = ''fit-out'', total_cost = 100, amortization_period_months = 4,
            start_date = Date 2025 1 1, book_value = 100, monthly_amortization_amount = 25,
            amortization_history = [] \<rparr>"
  let ?ds = "[Date 2025 1 1, Date 2025 2 1, Date 2025 3 1, Date 2025 4 1, Date 2025 5 1]"
  have m: "0 < monthly_amortization_amount ?a" by simp
  have c: "spec_calls_needed ?a \<le> int (length ?ds)" by (simp only: calls_needed_100_4) simp
  from exact_runs_terminate [OF init_100_4 m exact_run_100_4 c]
  have "book_value (amortize_all ?ds ?a) = 0" by blast
  with init_100_4 m exact_run_100_4 c show ?thesis by blast
qed

section \<open>The rounding residue\<close>

lemma hundred3_quot: "fl (100 / 3) = 4691249611844267 / 140737488355328"
  by (rule trans [OF fl_val [where e = "5" and n = 4691249611844267]]) simp_all

lemma hundred3_round: "round_half_even (4691249611844267 / 140737488355328 * 100) = 3333"
  by (rule round_half_even_near) simp

lemma hundred3_cents: "fl (3333 / 100) = 2345390243441541 / 70368744177664"
  by (rule trans [OF fl_val [where e = "5" and n = 4690780486883082]]) simp_all

lemma hundred3_monthly: "round2 (4691249611844267 / 140737488355328) = 2345390243441541 / 70368744177664"
  by (simp only: round2_def hundred3_round of_int_numeral hundred3_cents)

lemma hundred3_sub1: "fl (100 - 2345390243441541 / 70368744177664) = 4691484174324859 / 70368744177664"
  by (rule trans [OF fl_val [where e = "6" and n = 4691484174324859]]) simp_all

lemma hundred3_sub2: "fl (4691484174324859 / 70368744177664 - 2345390243441541 / 70368744177664) = 1173046965441659 / 35184372088832"
  by (rule trans [OF fl_val [where e = "5" and n = 4692187861766636]]) simp_all

lemma hundred3_sub3: "fl (1173046965441659 / 35184372088832 - 2345390243441541 / 70368744177664) = 703687441777 / 70368744177664"
  by (rule trans [OF fl_val [where e = "- 7" and n = 5764607523037184]]) simp_all

lemma hundred3_sub4: "fl (703687441777 / 70368744177664 - 703687441777 / 70368744177664) = 0"
  by (simp add: fl_zero)

lemma hundred3_3334: "fl (3334 / 100) = 1173046965441659 / 35184372088832"
  by (rule trans [OF fl_val [where e = "5" and n = 4692187861766636]]) simp_all

lemma hundred3_run:
  assumes "book_value s = 100" "monthly_amortization_amount s = 2345390243441541 / 70368744177664"
    and "amortization_history s = []"
  shows "book_value (amortize_all [d1, d2] s) = 1173046965441659 / 35184372088832"
    and "book_value (amortize_all [d1, d2, d3] s) = 703687441777 / 70368744177664"
    and "map amortized_amount (amortization_history (amortize_all [d1, d2, d3] s)) = [2345390243441541 / 70368744177664, 2345390243441541 / 70368744177664, 2345390243441541 / 70368744177664]"
    and "book_value (amortize_all [d1, d2, d3, d4] s) = 0"
    and "map amortized_amount (amortization_history (amortize_all [d1, d2, d3, d4] s)) = [2345390243441541 / 70368744177664, 2345390243441541 / 70368744177664, 2345390243441541 / 70368744177664, 703687441777 / 70368744177664]"
proof -
  have m1: "py_min 100 (2345390243441541 / 70368744177664) = 2345390243441541 / 70368744177664" by (simp add: py_min_def)
  have p1: "(0::rat) < 100" by simp
  note s1 = amortize_step_val [OF assms(1) p1 assms(2) m1 hundred3_sub1, of d1]
  have m2: "py_min (4691484174324859 / 70368744177664) (2345390243441541 / 70368744177664) = 2345390243441541 / 70368744177664" by (simp add: py_min_def)
  have p2: "(0::rat) < 4691484174324859 / 70368744177664" by simp
  note s2 = amortize_step_val [OF s1(1) p2 s1(2) m2 hundred3_sub2, of d2]
  have m3: "py_min (1173046965441659 / 35184372088832) (2345390243441541 / 70368744177664) = 2345390243441541 / 70368744177664" by (simp add: py_min_def)
  have p3: "(0::rat) < 1173046965441659 / 35184372088832" by simp
  note s3 = amortize_step_val [OF s2(1) p3 s2(2) m3 hundred3_sub3, of d3]
  have m4: "py_min (703687441777 / 70368744177664) (2345390243441541 / 70368744177664) = 703687441777 / 70368744177664" by (simp add: py_min_def)
  have p4: "(0::rat) < 703687441777 / 70368744177664" by simp
  note s4 = amortize_step_val [OF s3(1) p4 s3(2) m4 hundred3_sub4, of d4]
  show "book_value (amortize_all [d1, d2] s) = 1173046965441659 / 35184372088832" using s2(1) by simp
  show "book_value (amortize_all [d1, d2, d3] s) = 703687441777 / 70368744177664" using s3(1) by simp
  show "map amortized_amount (amortization_history (amortize_all [d1, d2, d3] s)) = [2345390243441541 / 70368744177664, 2345390243441541 / 70368744177664, 2345390243441541 / 70368744177664]"
    using s3(3) s2(3) s1(3) assms(3) by simp
  show "book_value (amortize_all [d1, d2, d3, d4] s) = 0" using s4(1) by simp
  show "map amortized_amount (amortization_history (amortize_all [d1, d2, d3, d4] s)) = [2345390243441541 / 70368744177664, 2345390243441541 / 70368744177664, 2345390243441541 / 70368744177664, 703687441777 / 70368744177664]"
    using s4(3) s3(3) s2(3) s1(3) assms(3) by simp
qed

lemma init_hundred_3:
  "init ''lease'' 100 3 (Date 2025 1 1) =
     Inr ([InitHeader, InitName ''lease'', InitCost 100, InitPeriod 3, InitMonthly (2345390243441541 / 70368744177664),
           JournalHeader, DebitAsset ''lease'' 100, CreditCash 100, Rule],
          \<lparr> name = ''lease'', total_cost = 100, amortization_period_months = 3,
            start_date = Date 2025 1 1, book_value = 100,
            monthly_amortization_amount = 2345390243441541 / 70368744177664, amortization_history = [] \<rparr>)"
proof (rule init_val [where mf = 3 and q = "4691249611844267 / 140737488355328"])
  show "fl (100 / 3) = 4691249611844267 / 140737488355328" by (rule hundred3_quot)
  show "round2 (4691249611844267 / 140737488355328) = 2345390243441541 / 70368744177664" by (rule hundred3_monthly)
qed (simp_all add: fl_numeral)

text \<open>
  C2. For \<^verbatim>\<open>total_cost = 100.00\<close> over 3 months the monthly amount is the float \<^verbatim>\<open>33.33\<close> and
  the book value after two calls is the float \<^verbatim>\<open>33.34\<close>, as the claim says. The third call
  does not amortize \<^verbatim>\<open>33.34\<close>: \<^verbatim>\<open>min(book_value, monthly_amortization_amount)\<close> is \<^verbatim>\<open>33.33\<close>
  again, the book value becomes \<^verbatim>\<open>0.010000000000005116\<close>, not 0, and only a fourth call
  amortizes that rest and reaches 0.
\<close>

theorem residue_left_after_last_period:
  "init ''lease'' 100 3 (Date 2025 1 1) =
     Inr ([InitHeader, InitName ''lease'', InitCost 100, InitPeriod 3, InitMonthly (2345390243441541 / 70368744177664),
           JournalHeader, DebitAsset ''lease'' 100, CreditCash 100, Rule],
          \<lparr> name = ''lease'', total_cost = 100, amortization_period_months = 3,
            start_date = Date 2025 1 1, book_value = 100,
            monthly_amortization_amount = 2345390243441541 / 70368744177664, amortization_history = [] \<rparr>)
   \<and> fl (3333 / 100) = 2345390243441541 / 70368744177664
   \<and> book_value (amortize_all [Date 2025 1 1, Date 2025 2 1] \<lparr> name = ''lease'', total_cost = 100, amortization_period_months = 3,
            start_date = Date 2025 1 1, book_value = 100,
            monthly_amortization_amount = 2345390243441541 / 70368744177664, amortization_history = [] \<rparr>) = fl (3334 / 100)
   \<and> map amortized_amount (amortization_history
         (amortize_all [Date 2025 1 1, Date 2025 2 1, Date 2025 3 1] \<lparr> name = ''lease'', total_cost = 100, amortization_period_months = 3,
            start_date = Date 2025 1 1, book_value = 100,
            monthly_amortization_amount = 2345390243441541 / 70368744177664, amortization_history = [] \<rparr>))
       = [fl (3333 / 100), fl (3333 / 100), fl (3333 / 100)]
   \<and> book_value (amortize_all [Date 2025 1 1, Date 2025 2 1, Date 2025 3 1] \<lparr> name = ''lease'', total_cost = 100, amortization_period_months = 3,
            start_date = Date 2025 1 1, book_value = 100,
            monthly_amortization_amount = 2345390243441541 / 70368744177664, amortization_history = [] \<rparr>) = 703687441777 / 70368744177664
   \<and> (703687441777 / 70368744177664 :: rat) \<noteq> 0
   \<and> map amortized_amount (amortization_history
         (amortize_all [Date 2025 1 1, Date 2025 2 1, Date 2025 3 1, Date 2025 4 1] \<lparr> name = ''lease'', total_cost = 100, amortization_period_months = 3,
            start_date = Date 2025 1 1, book_value = 100,
            monthly_amortization_amount = 2345390243441541 / 70368744177664, amortization_history = [] \<rparr>))
       = [fl (3333 / 100), fl (3333 / 100), fl (3333 / 100), 703687441777 / 70368744177664]
   \<and> book_value (amortize_all [Date 2025 1 1, Date 2025 2 1, Date 2025 3 1, Date 2025 4 1] \<lparr> name = ''lease'', total_cost = 100, amortization_period_months = 3,
            start_date = Date 2025 1 1, book_value = 100,
            monthly_amortization_amount = 2345390243441541 / 70368744177664, amortization_history = [] \<rparr>)
       = 0"
proof -
  let ?a = "\<lparr> name = ''lease'', total_cost = 100, amortization_period_months = 3,
            start_date = Date 2025 1 1, book_value = 100,
            monthly_amortization_amount = 2345390243441541 / 70368744177664, amortization_history = [] \<rparr>"
  note r = hundred3_run [of ?a, simplified expense.simps, OF refl refl refl]
  have n: "(703687441777 / 70368744177664 :: rat) \<noteq> 0" by simp
  show ?thesis
    unfolding hundred3_cents hundred3_3334
    using init_hundred_3 r [of "Date 2025 1 1" "Date 2025 2 1"]
      r(2,3) [of "Date 2025 1 1" "Date 2025 2 1" "Date 2025 3 1"]
      r(4,5) [of "Date 2025 1 1" "Date 2025 2 1" "Date 2025 3 1" "Date 2025 4 1"] n
    by blast
qed

section \<open>The period count as a float\<close>


lemma fl_powi:
  assumes "- 1074 \<le> n"
  shows "fl (2 powi n) = 2 powi n"
proof -
  have "(2::rat) powi n < 2 powi (n + 1)" by (intro power_int_strict_increasing) auto
  then have "float_exponent (2 powi n) = n" by (intro float_exponent_eq) simp_all
  then have "max (float_exponent (2 powi n)) (- 1022) - 52 \<le> n" using assms by simp
  moreover have "(2::rat) powi n = of_int 1 * 2 powi n" by simp
  ultimately show ?thesis by (rule fl_grid [rotated])
qed




section \<open>The rounding of the monthly amount\<close>

lemma round_half_even_tie_even:
  assumes "\<bar>of_int (round_half_even y) - y\<bar> = 1 / 2"
  shows "even (round_half_even y)"
proof -
  let ?d = "y - of_int \<lfloor>y\<rfloor>"
  have d: "0 \<le> ?d" "?d < 1" by linarith+
  have "?d = 1 / 2"
  proof (rule ccontr)
    assume n: "?d \<noteq> 1 / 2"
    show False
    proof (cases "?d < 1 / 2")
      case True
      then have "round_half_even y = \<lfloor>y\<rfloor>" by (simp add: round_half_even_def Let_def)
      with assms True d show False by simp
    next
      case False
      with n have g: "1 / 2 < ?d" by simp
      then have "round_half_even y = \<lfloor>y\<rfloor> + 1" by (simp add: round_half_even_def Let_def)
      with assms g d show False by simp
    qed
  qed
  then show ?thesis by (simp add: round_half_even_def Let_def)
qed

lemma ulp_le:
  assumes "x \<noteq> 0" "\<bar>x\<bar> < 2 powi (e + 1)" "- 1022 \<le> e"
  shows "ulp x \<le> 2 powi (e - 52)"
proof -
  have "float_exponent x \<le> e"
  proof (rule ccontr)
    assume "\<not> float_exponent x \<le> e"
    then have "e + 1 \<le> float_exponent x" by simp
    then have "(2::rat) powi (e + 1) \<le> 2 powi float_exponent x"
      by (intro power_int_increasing) simp_all
    with float_exponent_bounds(1) [OF assms(1)] assms(2) show False by linarith
  qed
  with assms(3) have "max (float_exponent x) (- 1022) - 52 \<le> e - 52" by simp
  then show ?thesis unfolding ulp_def by (intro power_int_increasing) simp_all
qed

lemma round2_cents:
  assumes "0 \<le> k" "k < 2 ^ 52"
  shows "round2 (fl (of_int k / 100)) = fl (of_int k / 100)"
proof (cases "k = 0")
  case True
  then show ?thesis by (simp add: round2_def fl_zero round_half_even_zero)
next
  case False
  let ?y = "of_int k / 100 :: rat"
  from False assms(1) have nz: "?y \<noteq> 0" by simp
  have "(of_int k :: rat) < of_int (2 ^ 52)" using assms(2) by (simp only: of_int_less_iff)
  then have "?y < 2 ^ 52 / 100" by simp
  also have "\<dots> < 2 powi (45 + 1)" by simp
  finally have "\<bar>?y\<bar> < 2 powi (45 + 1)" using assms(1) by simp
  from ulp_le [OF nz this] have "ulp ?y \<le> 2 powi (- 7)" by simp
  then have u: "ulp ?y \<le> 1 / 128" by simp
  have e: "fl ?y * 100 - of_int k = (fl ?y - ?y) * 100" by (simp add: algebra_simps)
  have "\<bar>fl ?y * 100 - of_int k\<bar> = \<bar>(fl ?y - ?y) * 100\<bar>" by (simp only: e)
  also have "\<dots> = \<bar>fl ?y - ?y\<bar> * 100" by (subst abs_mult) simp
  also have "\<dots> \<le> ulp ?y / 2 * 100" by (intro mult_right_mono fl_error) simp
  also have "\<dots> < 1 / 2" using u by simp
  finally have "round_half_even (fl ?y * 100) = k" by (rule round_half_even_near)
  then show ?thesis by (simp add: round2_def)
qed

lemma spec_half_up_eighth: "spec_round_half_up (1 / 4 / 2) = 13 / 100"
proof -
  have "\<lfloor>13 :: rat\<rfloor> = 13" by simp
  then show ?thesis by (simp add: spec_round_half_up_def)
qed

lemma eighth_round: "round_half_even (1 / 8 * 100) = 12"
proof -
  have "(1 / 8 * 100 :: rat) = of_int 12 + 1 / 2" by simp
  from round_half_even_tie [OF this] show ?thesis by simp
qed

lemma eighth_cents: "fl (12 / 100) = 1080863910568919 / 9007199254740992"
  by (rule trans [OF fl_val [where e = "- 4" and n = 8646911284551352]]) simp_all

lemma eighth_up_cents: "fl (13 / 100) = 1170935903116329 / 9007199254740992"
  by (rule trans [OF fl_val [where e = "- 3" and n = 4683743612465316]]) simp_all

lemma eighth_quot: "fl (1 / 4 / 2) = 1 / 8"
proof -
  have "(1 / 4 / 2 :: rat) = of_int 1 * 2 powi (- 3)" by simp
  moreover have "float_exponent (1 / 4 / 2) = - 3" by (rule float_exponent_eq) simp_all
  then have "max (float_exponent (1 / 4 / 2)) (- 1022) - 52 \<le> - 3" by simp
  ultimately have "fl (1 / 4 / 2) = 1 / 4 / 2" by (rule fl_grid)
  then show ?thesis by simp
qed

lemma eighth_monthly: "round2 (1 / 8) = 1080863910568919 / 9007199254740992"
  by (simp only: round2_def eighth_round of_int_numeral eighth_cents)

lemma init_quarter_2:
  "init nm (1 / 4) 2 start =
     Inr ([InitHeader, InitName nm, InitCost (1 / 4), InitPeriod 2,
           InitMonthly (1080863910568919 / 9007199254740992),
           JournalHeader, DebitAsset nm (1 / 4), CreditCash (1 / 4), Rule],
          \<lparr> name = nm, total_cost = 1 / 4, amortization_period_months = 2,
            start_date = start, book_value = 1 / 4,
            monthly_amortization_amount = 1080863910568919 / 9007199254740992,
            amortization_history = [] \<rparr>)"
proof (rule init_val [where mf = 2 and q = "1 / 8"])
  show "fl (1 / 4 / 2) = 1 / 8" by (rule eighth_quot)
  show "round2 (1 / 8) = 1080863910568919 / 9007199254740992" by (rule eighth_monthly)
qed (simp_all add: fl_numeral)

text \<open>
  C5 as stated fails: a cost of 0.25 over 2 months has the quotient 0.125, exactly, also as a
  float. Rounding half up gives 0.13, but \<^verbatim>\<open>round(0.125, 2)\<close> is 0.12: the monthly amount
  is the float nearest to 0.12, which is neither 13 / 100 nor the float nearest to it.
\<close>

theorem half_up_counterexample:
  "init ''fee'' (1 / 4) 2 (Date 2025 1 1) =
     Inr ([InitHeader, InitName ''fee'', InitCost (1 / 4), InitPeriod 2,
           InitMonthly (1080863910568919 / 9007199254740992),
           JournalHeader, DebitAsset ''fee'' (1 / 4), CreditCash (1 / 4), Rule],
          \<lparr> name = ''fee'', total_cost = 1 / 4, amortization_period_months = 2,
            start_date = Date 2025 1 1, book_value = 1 / 4,
            monthly_amortization_amount = 1080863910568919 / 9007199254740992,
            amortization_history = [] \<rparr>)
   \<and> spec_round_half_up (1 / 4 / 2) = 13 / 100
   \<and> spec_round_half_up (1 / 4 / 2) \<noteq> 1080863910568919 / 9007199254740992
   \<and> fl (spec_round_half_up (1 / 4 / 2)) \<noteq> 1080863910568919 / 9007199254740992"
  by (simp only: init_quarter_2 spec_half_up_eighth eighth_up_cents) simp

text \<open>
  C5, amended: the monthly amount is the float nearest to \<open>c / 100\<close>, where \<open>c\<close> is the integer
  nearest to 100 times the float quotient of the cost by the period count, a tie going to the
  even integer. Over one month a cost of \<open>k\<close> hundredths, \<open>0 \<le> k < 2 ^ 52\<close>, is its own monthly
  amount, and 120000.00 over 60 months gives 2000.00 exactly.
\<close>

theorem monthly_amount_rounding:
  assumes "init nm cost months start = Inr (out, a)"
  shows "(let q = fl (cost / fl (of_int months)); c = round_half_even (q * 100) in
            monthly_amortization_amount a = fl (of_int c / 100) \<and>
            \<bar>of_int c - q * 100\<bar> \<le> 1 / 2 \<and>
            (\<bar>of_int c - q * 100\<bar> = 1 / 2 \<longrightarrow> even c)) \<and>
         (months = 1 \<and> 0 \<le> k \<and> k < 2 ^ 52 \<and> cost = fl (of_int k / 100) \<longrightarrow>
            monthly_amortization_amount a = total_cost a) \<and>
         (cost = 120000 \<and> months = 60 \<longrightarrow> monthly_amortization_amount a = 2000)"
proof (intro conjI)
  note a = init_Inr(4) [OF assms]
  show "let q = fl (cost / fl (of_int months)); c = round_half_even (q * 100) in
            monthly_amortization_amount a = fl (of_int c / 100) \<and>
            \<bar>of_int c - q * 100\<bar> \<le> 1 / 2 \<and>
            (\<bar>of_int c - q * 100\<bar> = 1 / 2 \<longrightarrow> even c)"
    unfolding Let_def
  proof (intro conjI impI)
    show "monthly_amortization_amount a =
      fl (of_int (round_half_even (fl (cost / fl (of_int months)) * 100)) / 100)"
      by (simp add: a round2_def)
  qed (rule round_half_even_bounds, rule round_half_even_tie_even)
  show "months = 1 \<and> 0 \<le> k \<and> k < 2 ^ 52 \<and> cost = fl (of_int k / 100) \<longrightarrow>
            monthly_amortization_amount a = total_cost a"
  proof
    assume h: "months = 1 \<and> 0 \<le> k \<and> k < 2 ^ 52 \<and> cost = fl (of_int k / 100)"
    then have k: "0 \<le> k" "k < 2 ^ 52" by simp_all
    from k(1) have "fl (fl (of_int k / 100)) = fl (of_int k / 100)"
      by (intro fl_idem_nonneg) simp
    with h have "fl (cost / fl (of_int months)) = fl (of_int k / 100)" by (simp add: fl_one)
    then have "monthly_amortization_amount a = round2 (fl (of_int k / 100))" by (simp add: a)
    also have "\<dots> = fl (of_int k / 100)" by (rule round2_cents [OF k])
    finally show "monthly_amortization_amount a = total_cost a" using h by (simp add: a)
  qed
  show "cost = 120000 \<and> months = 60 \<longrightarrow> monthly_amortization_amount a = 2000"
  proof
    assume h: "cost = 120000 \<and> months = 60"
    have "fl (of_int 60) = 60" by (simp add: fl_numeral)
    moreover have "fl (120000 / 60) = 2000"
    proof -
      have "(120000 / 60 :: rat) = 2000" by simp
      then show ?thesis by (simp only: fl_numeral) (simp add: fl_numeral)
    qed
    moreover have "round2 2000 = 2000"
      by (simp add: round2_def round_half_even_numeral fl_numeral)
    ultimately show "monthly_amortization_amount a = 2000" using h by (simp add: a)
  qed
qed

lemma init_100_1:
  "init nm (fl (of_int 10000 / 100)) 1 start =
     Inr ([InitHeader, InitName nm, InitCost 100, InitPeriod 1, InitMonthly 100,
           JournalHeader, DebitAsset nm 100, CreditCash 100, Rule],
          \<lparr> name = nm, total_cost = 100, amortization_period_months = 1,
            start_date = start, book_value = 100, monthly_amortization_amount = 100,
            amortization_history = [] \<rparr>)"
proof -
  have c: "fl (of_int 10000 / 100) = 100" by (simp add: fl_numeral)
  have "round2 100 = 100" by (simp add: round2_def round_half_even_numeral fl_numeral)
  then show ?thesis unfolding c
    by (intro init_val [where mf = 1 and q = 100]) (simp_all add: fl_one fl_numeral)
qed

lemma init_120000_60:
  "init nm 120000 60 start =
     Inr ([InitHeader, InitName nm, InitCost 120000, InitPeriod 60, InitMonthly 2000,
           JournalHeader, DebitAsset nm 120000, CreditCash 120000, Rule],
          \<lparr> name = nm, total_cost = 120000, amortization_period_months = 60,
            start_date = start, book_value = 120000, monthly_amortization_amount = 2000,
            amortization_history = [] \<rparr>)"
proof -
  have "round2 2000 = 2000" by (simp add: round2_def round_half_even_numeral fl_numeral)
  then show ?thesis
    by (intro init_val [where mf = 60 and q = 2000]) (simp_all add: fl_numeral)
qed

theorem monthly_amount_rounding_witness:
  "(\<exists>out a. init ''fee'' (fl (of_int 10000 / 100)) 1 (Date 2025 1 1) = Inr (out, a)
      \<and> (1::int) = 1 \<and> (0::int) \<le> 10000 \<and> (10000::int) < 2 ^ 52
      \<and> monthly_amortization_amount a = total_cost a \<and> total_cost a = 100)
   \<and> (\<exists>out a. init ''fee'' 120000 60 (Date 2025 1 1) = Inr (out, a)
      \<and> monthly_amortization_amount a = 2000
      \<and> monthly_amortization_amount a = fl (of_int (round_half_even (fl (120000 / fl (of_int 60)) * 100)) / 100))"
proof -
  have "monthly_amortization_amount
          \<lparr> name = ''fee'', total_cost = 100, amortization_period_months = 1,
            start_date = Date 2025 1 1, book_value = 100, monthly_amortization_amount = 100,
            amortization_history = [] \<rparr> =
        total_cost
          \<lparr> name = ''fee'', total_cost = 100, amortization_period_months = 1,
            start_date = Date 2025 1 1, book_value = 100, monthly_amortization_amount = 100,
            amortization_history = [] \<rparr>"
    using monthly_amount_rounding [where k = 10000, OF init_100_1 [of "''fee''" "Date 2025 1 1"]]
    by simp
  moreover have "monthly_amortization_amount
          \<lparr> name = ''fee'', total_cost = 120000, amortization_period_months = 60,
            start_date = Date 2025 1 1, book_value = 120000, monthly_amortization_amount = 2000,
            amortization_history = [] \<rparr> = 2000 \<and>
        monthly_amortization_amount
          \<lparr> name = ''fee'', total_cost = 120000, amortization_period_months = 60,
            start_date = Date 2025 1 1, book_value = 120000, monthly_amortization_amount = 2000,
            amortization_history = [] \<rparr> =
        fl (of_int (round_half_even (fl (120000 / fl (of_int 60)) * 100)) / 100)"
    using monthly_amount_rounding [where k = 0, OF init_120000_60 [of "''fee''" "Date 2025 1 1"]]
    by (simp only: Let_def) simp
  ultimately show ?thesis by (simp only: init_100_1 init_120000_60) simp
qed

section \<open>Floats of either sign\<close>

lemma round_half_even_minus: "round_half_even (- y) = - round_half_even y"
proof (cases "y = of_int \<lfloor>y\<rfloor>")
  case True
  have "round_half_even (- of_int \<lfloor>y\<rfloor>) = - round_half_even (of_int \<lfloor>y\<rfloor>)"
    using round_half_even_of_int [of "- \<lfloor>y\<rfloor>"] by (simp add: round_half_even_of_int)
  with True show ?thesis by simp
next
  case False
  have lo: "of_int \<lfloor>y\<rfloor> < y" by (metis False less_le of_int_floor_le)
  have hi: "y < of_int \<lfloor>y\<rfloor> + 1" by linarith
  have f: "\<lfloor>- y\<rfloor> = - \<lfloor>y\<rfloor> - 1"
    by (rule floor_unique) (use lo hi in simp_all)
  show ?thesis
    unfolding round_half_even_def Let_def f using lo hi by (auto simp: algebra_simps)
qed

lemma ulp_minus: "ulp (- x) = ulp x"
  by (simp add: ulp_def float_exponent_def)

lemma fl_minus: "fl (- x) = - fl x"
proof -
  have "round_half_even (- x / ulp x) = - round_half_even (x / ulp x)"
    using round_half_even_minus [of "x / ulp x"] by simp
  then show ?thesis by (simp add: fl_def ulp_minus)
qed

lemma fl_abs: "\<bar>fl x\<bar> = fl \<bar>x\<bar>"
proof (cases "0 \<le> x")
  case True
  then show ?thesis by (simp add: fl_nonneg)
next
  case False
  then have "0 \<le> - x" by simp
  then have "0 \<le> fl (- x)" by (rule fl_nonneg)
  with False show ?thesis by (simp add: fl_minus)
qed

lemma fl_idem: "fl (fl x) = fl x"
proof (cases "0 \<le> x")
  case True
  then show ?thesis by (rule fl_idem_nonneg)
next
  case False
  then have "fl (fl (- x)) = fl (- x)" by (intro fl_idem_nonneg) simp
  then show ?thesis by (simp add: fl_minus)
qed

lemma round2_minus: "round2 (- x) = - round2 x"
proof -
  have "round_half_even (- (x * 100)) = - round_half_even (x * 100)"
    by (rule round_half_even_minus)
  then show ?thesis by (simp add: round2_def fl_minus)
qed

lemma round2_abs: "\<bar>round2 x\<bar> = round2 \<bar>x\<bar>"
proof (cases "0 \<le> x")
  case True
  then show ?thesis by (simp add: round2_nonneg)
next
  case False
  then have "0 \<le> round2 (- x)" by (intro round2_nonneg) simp
  with False show ?thesis by (simp add: round2_minus)
qed

lemma is_float_abs: "is_float x \<Longrightarrow> is_float \<bar>x\<bar>"
  using fl_abs [of x] by (simp add: is_float_def)

text \<open>A float of magnitude \<open>2 ^ 53\<close> or more is a whole number.\<close>

lemma large_float_is_int:
  assumes "fl x = x" "2 ^ 53 \<le> x"
  shows "\<exists>N. x = of_int N"
proof -
  let ?e = "float_exponent x"
  from assms(2) have pos: "0 < x" by (rule less_le_trans [rotated]) simp
  then have nz: "x \<noteq> 0" by simp
  have "53 \<le> ?e"
  proof (rule ccontr)
    assume "\<not> 53 \<le> ?e"
    then have "?e + 1 \<le> 53" by simp
    then have "(2::rat) powi (?e + 1) \<le> 2 powi 53" by (intro power_int_increasing) simp_all
    with float_exponent_bounds(2) [OF nz] assms(2) pos show False by simp
  qed
  then have u: "ulp x = 2 powi (?e - 52)" and j: "0 \<le> ?e - 52"
    by (simp_all add: ulp_def max_def)
  from j have "(2::rat) powi (?e - 52) = of_int (2 ^ nat (?e - 52))"
    by (simp add: power_int_def)
  with u have "fl x = of_int (round_half_even (x / ulp x) * 2 ^ nat (?e - 52))"
    using nz by (simp add: fl_def)
  with assms(1) show ?thesis by metis
qed

lemma round2_of_int: "round2 (of_int N) = fl (of_int N)"
proof -
  have "round_half_even (of_int N * 100) = N * 100"
    using round_half_even_of_int [of "N * 100"] by simp
  then show ?thesis by (simp add: round2_def)
qed

text \<open>\<^verbatim>\<open>round(x, 2)\<close> never overflows.\<close>

lemma round2_finite:
  assumes "is_float x"
  shows "\<bar>round2 x\<bar> < 2 ^ 1024"
proof -
  let ?a = "\<bar>x\<bar>"
  from is_float_abs [OF assms] have a: "fl ?a = ?a" "?a < 2 ^ 1024" by (simp_all add: is_float_def)
  have "round2 ?a < 2 ^ 1024"
  proof (cases "2 ^ 53 \<le> ?a")
    case True
    from large_float_is_int [OF a(1) True] obtain N where N: "?a = of_int N" ..
    have "round2 ?a = ?a" unfolding N round2_of_int using a(1) N by simp
    with a(2) show ?thesis by simp
  next
    case False
    then have "?a * 100 \<le> of_int (2 ^ 60)" by simp
    then have "round_half_even (?a * 100) \<le> round_half_even (of_int (2 ^ 60))"
      by (rule round_half_even_mono)
    then have c: "round_half_even (?a * 100) \<le> 2 ^ 60" by (simp only: round_half_even_of_int)
    have c0: "0 \<le> round_half_even (?a * 100)" by (intro round_half_even_nonneg) simp
    from c have "(of_int (round_half_even (?a * 100)) :: rat) \<le> of_int (2 ^ 60)"
      by (simp only: of_int_le_iff)
    then have "(of_int (round_half_even (?a * 100)) :: rat) / 100 \<le> 2 powi 60"
      using c0 by simp
    moreover have "(0::rat) \<le> of_int (round_half_even (?a * 100)) / 100" using c0 by simp
    ultimately have "fl (of_int (round_half_even (?a * 100)) / 100) \<le> fl (2 powi 60)"
      by (intro fl_mono_nonneg)
    also have "\<dots> = 2 powi 60" by (rule fl_powi) simp
    also have "\<dots> < 2 powi 1024" by (intro power_int_strict_increasing) simp_all
    finally show ?thesis by (simp add: round2_def)
  qed
  then show ?thesis by (simp only: round2_abs)
qed


section \<open>The float of an exact result\<close>

lemma to_pyfloat_finite: "\<bar>fl r\<bar> < 2 ^ 1024 \<Longrightarrow> to_pyfloat r = Finite (fl r)"
  by (simp add: to_pyfloat_def abs_less_iff not_le)




section \<open>Construction on every float\<close>




section \<open>Calls on every state\<close>




section \<open>The finite model inside the general one\<close>

lemma pf_min_Finite: "pf_min (Finite b) (Finite m) = Finite (py_min b m)"
  by (simp add: pf_min_def py_min_def)

lemma amortize_for_period_x_ext:
  assumes "is_float (book_value self)" "0 \<le> book_value self"
    and "0 \<le> monthly_amortization_amount self"
  shows "amortize_for_period_x (DateObj d) (ext_expense self) =
     Inr (NoneVal, map ext_line (fst (amortize_for_period d self)),
          ext_expense (snd (amortize_for_period d self)))"
proof (cases "book_value self \<le> 0")
  case True
  then show ?thesis
    by (simp add: amortize_for_period_x_def amortize_for_period_def strftime_def ext_expense_def)
next
  case False
  let ?a = "py_min (book_value self) (monthly_amortization_amount self)"
  from amortize_for_period_is_float(1) [OF assms, of d] False
  have "is_float (float_sub (book_value self) ?a)"
    by (simp add: amortize_for_period_def get_status_def Let_def)
  then have "\<bar>fl (book_value self - ?a)\<bar> < 2 ^ 1024" by (simp add: is_float_def float_sub_def)
  then have s: "to_pyfloat (book_value self - ?a) = Finite (float_sub (book_value self) ?a)"
    unfolding float_sub_def by (rule to_pyfloat_finite)
  from False show ?thesis
    by (simp add: amortize_for_period_x_def amortize_for_period_def strftime_def ext_expense_def
        ext_transaction_def get_status_x_def get_status_def Let_def pf_min_Finite s)
qed

lemma init_x_ext:
  assumes "is_float cost"
  shows "init_x nm (Finite cost) months start =
     (case init nm cost months start of
        Inl e \<Rightarrow> Inl e
      | Inr (out, a) \<Rightarrow> Inr (map ext_line out, ext_expense a))"
proof (cases "months \<le> 0 \<or> \<not> \<bar>fl (of_int months)\<bar> < 2 ^ 1024")
  case True
  then show ?thesis by (auto simp: init_x_def init_def int_to_float_def)
next
  case False
  let ?mf = "fl (of_int months)"
  from False have m: "0 < months" "\<bar>?mf\<bar> < 2 ^ 1024" by simp_all
  have "fl 1 \<le> ?mf" using m(1) by (intro fl_mono_nonneg) simp_all
  then have mf: "1 \<le> ?mf" by (simp add: fl_one)
  then have nz: "?mf \<noteq> 0" by simp
  have "\<bar>cost / ?mf\<bar> \<le> \<bar>cost\<bar>"
  proof -
    have "\<bar>cost\<bar> / ?mf \<le> \<bar>cost\<bar> / 1" using mf by (intro divide_left_mono) simp_all
    with mf show ?thesis by simp
  qed
  then have "fl \<bar>cost / ?mf\<bar> \<le> fl \<bar>cost\<bar>" by (intro fl_mono_nonneg) simp_all
  also have "fl \<bar>cost\<bar> = \<bar>cost\<bar>" using is_float_abs [OF assms] by (simp add: is_float_def)
  also have "\<bar>cost\<bar> < 2 ^ 1024" using assms by (simp add: is_float_def)
  finally have q: "\<bar>fl (cost / ?mf)\<bar> < 2 ^ 1024" by (simp only: fl_abs)
  then have tq: "to_pyfloat (cost / ?mf) = Finite (fl (cost / ?mf))" by (rule to_pyfloat_finite)
  from q have "is_float (fl (cost / ?mf))" by (simp add: is_float_def fl_idem)
  from round2_finite [OF this] have r: "\<bar>round2 (fl (cost / ?mf))\<bar> < 2 ^ 1024" .
  from m nz r show ?thesis
    by (simp add: init_x_def init_def int_to_float_def pf_truediv_def float_truediv_def
        pf_round2_def tq ext_expense_def Let_def)
qed

section \<open>Construction and its errors\<close>





section \<open>The status report\<close>

lemma format_2f_nearest:
  "\<exists>c. format_2f (Finite b) = Decimal c \<and> \<bar>of_int c / 100 - b\<bar> \<le> 1 / 200
     \<and> (\<bar>of_int c / 100 - b\<bar> = 1 / 200 \<longrightarrow> even c)"
proof -
  let ?c = "round_half_even (b * 100)"
  have e: "\<bar>of_int ?c / 100 - b\<bar> = \<bar>of_int ?c - b * 100\<bar> / 100"
  proof -
    have "of_int ?c / 100 - b = (of_int ?c - b * 100) / 100" by (simp add: field_simps)
    then show ?thesis by (simp only: abs_divide)
  qed
  have "\<bar>of_int ?c - b * 100\<bar> \<le> 1 / 2" by (rule round_half_even_bounds)
  then have 1: "\<bar>of_int ?c / 100 - b\<bar> \<le> 1 / 200" unfolding e by simp
  have 2: "\<bar>of_int ?c / 100 - b\<bar> = 1 / 200 \<longrightarrow> even ?c"
  proof
    assume "\<bar>of_int ?c / 100 - b\<bar> = 1 / 200"
    then have "\<bar>of_int ?c - b * 100\<bar> = 1 / 2" unfolding e by simp
    then show "even ?c" by (rule round_half_even_tie_even)
  qed
  from 1 2 show ?thesis by simp
qed

lemma round_half_even_small: "round_half_even (1 / 256 * 100) = 0"
proof -
  have "\<bar>1 / 256 * 100 - of_int 0\<bar> < (1 / 2 :: rat)" by simp
  then show ?thesis by (rule round_half_even_near)
qed

lemma round_half_even_small_cents: "round_half_even (25 / 64) = 0"
  using round_half_even_small by simp

lemma round_half_even_eighth_cents: "round_half_even (25 / 2) = 12"
  using eighth_round by simp

lemma init_x_small:
  "init_x nm (Finite (1 / 256)) 1 start =
     Inr ([XInitHeader, XInitName nm, XInitCost (Decimal 0), XInitPeriod 1,
           XInitMonthly (Decimal 0), XJournalHeader, XDebitAsset nm (Decimal 0),
           XCreditCash (Decimal 0), XRule],
          \<lparr> name_x = nm, total_cost_x = Finite (1 / 256), amortization_period_months_x = 1,
            start_date_x = start, book_value_x = Finite (1 / 256),
            monthly_amortization_amount_x = Finite 0, amortization_history_x = [] \<rparr>)"
proof -
  have m: "\<bar>fl (of_int 1)\<bar> < 2 ^ 1024" "fl (of_int 1) = 1" by (simp_all add: fl_one)
  have "(1 / 256 :: rat) = of_int 1 * 2 powi (- 8)" by simp
  moreover have "float_exponent (1 / 256) = - 8" by (rule float_exponent_eq) simp_all
  then have "max (float_exponent (1 / 256)) (- 1022) - 52 \<le> - 8" by simp
  ultimately have q: "fl (1 / 256) = 1 / 256" by (rule fl_grid)
  then have t: "to_pyfloat (1 / 256) = Finite (1 / 256)"
    using to_pyfloat_finite [of "1 / 256"] by simp
  have r: "round2 (1 / 256) = 0"
    by (simp only: round2_def round_half_even_small) (simp add: fl_zero)
  from m t r show ?thesis
    by (simp add: init_x_def int_to_float_def pf_truediv_def pf_round2_def Let_def
        round_half_even_small_cents round_half_even_zero)
qed

text \<open>
  C8 as stated fails: \<^verbatim>\<open>get_status\<close> has no \<^verbatim>\<open>return\<close>, so the call returns \<^verbatim>\<open>None\<close>, not the book
  value. What it prints is the book value with two decimals: an asset of cost 0.00390625
  has this book value and is reported with \<^verbatim>\<open>0.00\<close>.
\<close>

theorem get_status_counterexample:
  "init_x ''fee'' (Finite (1 / 256)) 1 (Date 2025 1 1) =
     Inr ([XInitHeader, XInitName ''fee'', XInitCost (Decimal 0), XInitPeriod 1,
           XInitMonthly (Decimal 0), XJournalHeader, XDebitAsset ''fee'' (Decimal 0),
           XCreditCash (Decimal 0), XRule],
          \<lparr> name_x = ''fee'', total_cost_x = Finite (1 / 256), amortization_period_months_x = 1,
            start_date_x = Date 2025 1 1, book_value_x = Finite (1 / 256),
            monthly_amortization_amount_x = Finite 0, amortization_history_x = [] \<rparr>)
   \<and> get_status_x
         \<lparr> name_x = ''fee'', total_cost_x = Finite (1 / 256), amortization_period_months_x = 1,
           start_date_x = Date 2025 1 1, book_value_x = Finite (1 / 256),
           monthly_amortization_amount_x = Finite 0, amortization_history_x = [] \<rparr> =
       Inr (NoneVal, [XBookValue (Decimal 0), XRule],
          \<lparr> name_x = ''fee'', total_cost_x = Finite (1 / 256), amortization_period_months_x = 1,
            start_date_x = Date 2025 1 1, book_value_x = Finite (1 / 256),
            monthly_amortization_amount_x = Finite 0, amortization_history_x = [] \<rparr>)
   \<and> NoneVal \<noteq> FloatVal (Finite (1 / 256))
   \<and> format_2f (Finite (1 / 256)) = format_2f (Finite 0)"
  by (simp add: init_x_small get_status_x_def round_half_even_small_cents round_half_even_zero)

text \<open>
  C8, amended: in every state \<^verbatim>\<open>get_status\<close> returns \<^verbatim>\<open>None\<close>, leaves every field of the object
  as it was and has no failing branch. It prints the current book value in the format
  \<^verbatim>\<open>:,.2f\<close>, followed by a rule: for a finite book value the amount in hundredths nearest to
  it, a tie going to the even hundredth, and \<^verbatim>\<open>inf\<close>, \<^verbatim>\<open>-inf\<close> or \<^verbatim>\<open>nan\<close> otherwise.
\<close>

theorem get_status_reports:
  "get_status_x self = Inr (NoneVal, [XBookValue (format_2f (book_value_x self)), XRule], self)
   \<and> (book_value_x self = Finite b \<longrightarrow>
        (\<exists>c. format_2f (book_value_x self) = Decimal c \<and> \<bar>of_int c / 100 - b\<bar> \<le> 1 / 200
           \<and> (\<bar>of_int c / 100 - b\<bar> = 1 / 200 \<longrightarrow> even c)))
   \<and> (book_value_x self = PosInf \<longrightarrow> format_2f (book_value_x self) = ShownInf)
   \<and> (book_value_x self = NegInf \<longrightarrow> format_2f (book_value_x self) = ShownNegInf)
   \<and> (book_value_x self = NaN \<longrightarrow> format_2f (book_value_x self) = ShownNaN)"
  using format_2f_nearest [of b] by (simp add: get_status_x_def)

theorem get_status_reports_witness:
  "book_value_x
      \<lparr> name_x = ''fee'', total_cost_x = Finite (1 / 8), amortization_period_months_x = 1,
        start_date_x = Date 2025 1 1, book_value_x = Finite (1 / 8),
        monthly_amortization_amount_x = Finite (3 / 25), amortization_history_x = [] \<rparr>
     = Finite (1 / 8)
   \<and> (\<exists>c. format_2f (Finite (1 / 8)) = Decimal c \<and> \<bar>of_int c / 100 - 1 / 8\<bar> = (1 / 200 :: rat)
        \<and> even c)"
proof -
  let ?s = "\<lparr> name_x = ''fee'', total_cost_x = Finite (1 / 8), amortization_period_months_x = 1,
        start_date_x = Date 2025 1 1, book_value_x = Finite (1 / 8),
        monthly_amortization_amount_x = Finite (3 / 25), amortization_history_x = [] \<rparr>"
  have c: "format_2f (Finite (1 / 8)) = Decimal 12" by (simp add: round_half_even_eighth_cents)
  from get_status_reports [of ?s "1 / 8"] c show ?thesis by simp
qed

end
